theory Spec2Isabelle
  imports Main
begin

section \<open>Log-based deployment polling: the data model\<close>

text \<open>
  The development embeds the log-stream poller \<^verbatim>\<open>pollForCompletion\<close> with phase timings: the
  revision of polling.ts that defines \<^verbatim>\<open>calculatePhaseDurations\<close>, fails fast on error-level
  entries and recognises permanent authorization errors (in the sources it follows the OIDC
  module in src/oidc.ts, lines 214 to 645). With it come \<^verbatim>\<open>getLogId\<close>, \<^verbatim>\<open>formatTimestamp\<close>,
  \<^verbatim>\<open>isSuccessful\<close>, \<^verbatim>\<open>isFailed\<close>, and the part of \<^verbatim>\<open>run\<close> in main.ts that consumes the
  polling result.

  Strings are lists of 8-bit code units. Instants read from \<^verbatim>\<open>Date.now()\<close> and parsed from
  timestamps are integers (milliseconds). \<^verbatim>\<open>new Date(s).getTime()\<close> is a function of the platform:
  every definition that needs it takes it as the parameter \<open>parseDate\<close>, where \<open>None\<close> stands
  for \<^verbatim>\<open>NaN\<close>.
\<close>

text \<open>A value of TypeScript type \<^verbatim>\<open>unknown\<close>, as \<^verbatim>\<open>JSON.parse\<close> produces it.\<close>

datatype json =
    JNull
  | JBool bool
  | JNum int
  | JStr string
  | JArr "json list"
  | JObj "(string \<times> json) list"

text \<open>
  \<^verbatim>\<open>LogEntry.metadata\<close>. The fields are the ones the poller reads, each with the type at which
  the poller uses it: \<^verbatim>\<open>action\<close>, \<^verbatim>\<open>timestamp\<close>, \<^verbatim>\<open>message\<close> and \<^verbatim>\<open>details.phase\<close> are used as
  strings, \<^verbatim>\<open>duration_ms\<close> as a number, \<^verbatim>\<open>details.bundle_version\<close> and
  \<^verbatim>\<open>details.deployment_url\<close> are cast to \<^verbatim>\<open>string | undefined\<close>, and \<^verbatim>\<open>error\<close> is inspected
  with \<^verbatim>\<open>typeof\<close>, so it is kept as an arbitrary JSON value. \<open>None\<close> is an absent field.
\<close>

record Details =
  phase :: "string option"
  bundle_version :: "string option"
  deployment_url :: "string option"

record Metadata =
  action :: "string option"
  details :: "Details option"
  md_timestamp :: "string option"
  md_message :: "string option"
  error :: "json option"
  duration_ms :: "int option"

record LogEntry =
  timestamp :: string
  level :: string
  message :: string
  metadata :: "Metadata option"

datatype LogVerbosity = LvNone | LvQuiet | LvNormal | LvVerbose

record PollingConfig =
  pollDelayMs :: "int option"
  logLimit :: "int option"
  logVerbosity :: "LogVerbosity option"

record PhaseTiming =
  startedAt :: string
  durationMs :: "int option"

text \<open>
  \<^verbatim>\<open>PhaseTimings\<close>, an object used as a dictionary, is a map from phase names to timings. A
  phase whose name is an inherited property of \<^verbatim>\<open>Object\<close> (such as \<^verbatim>\<open>__proto__\<close>) is outside the
  model: for it the lines written and the shape of the object can differ.
\<close>

type_synonym PhaseTimings = "string \<rightharpoonup> PhaseTiming"

text \<open>The local variables of one poll session that survive an iteration.\<close>

record PollState =
  seenLogIds :: "string set"
  seenPhases :: "string set"
  phases :: "string list"
  phaseTimings :: PhaseTimings

datatype Status = Success | Failed | Timeout

record PollingResult =
  status :: Status
  durationMs :: "int option"
  errorMessage :: "string option"
  phases :: "string list"
  phaseTimings :: "PhaseTimings option"
  bundleVersion :: "string option"
  deploymentUrl :: "string option"

text \<open>
  The lines written through \<^verbatim>\<open>core.info\<close>, \<^verbatim>\<open>core.warning\<close> and \<^verbatim>\<open>core.error\<close>. A line is
  recorded by its kind and the values interpolated into it; the text layout (padding,
  \<^verbatim>\<open>formatDuration\<close>, rounding) is not modelled.
\<close>

datatype LogLine =
    InfoPolling int
  | InfoBlank
  | InfoLog string string string
  | InfoPhaseFailed string string
  | InfoPhaseDone string string int
  | InfoPhaseStart string string
  | InfoCompleted "int option"
  | InfoBundleVersion string
  | InfoDeploymentUrl string
  | InfoPhaseDurationsHeader
  | InfoPhaseDuration string int
  | WarnFetchFailed string
  | ErrorTimeout int "string list"
  | ErrorAuthorization
  | ErrorDeploymentFailed string

section \<open>String helpers\<close>

text \<open>\<^verbatim>\<open>a || b\<close> on an optional string: the empty string and \<^verbatim>\<open>undefined\<close> are falsy.\<close>

definition truthy :: "string option \<Rightarrow> bool" where
  "truthy a = (case a of None \<Rightarrow> False | Some s \<Rightarrow> s \<noteq> [])"

definition orElse :: "string option \<Rightarrow> string \<Rightarrow> string" where
  "orElse a b = (case a of None \<Rightarrow> b | Some s \<Rightarrow> if s = [] then b else s)"

text \<open>\<^verbatim>\<open>String.prototype.toLowerCase\<close> on code units below 256.\<close>

definition toLowerChar :: "char \<Rightarrow> char" where
  "toLowerChar c =
     (let n = (of_char c :: nat)
      in if (65 \<le> n \<and> n \<le> 90) \<or> (192 \<le> n \<and> n \<le> 222 \<and> n \<noteq> 215)
         then char_of (n + 32) else c)"

definition toLowerCase :: "string \<Rightarrow> string" where
  "toLowerCase s = map toLowerChar s"

text \<open>The decimal numeral of a natural number, as \<^verbatim>\<open>number + string\<close> renders a length.\<close>

fun decimal :: "nat \<Rightarrow> string" where
  "decimal n =
     (if n < 10 then [char_of (48 + n)]
      else decimal (n div 10) @ [char_of (48 + n mod 10)])"

declare decimal.simps [simp del]

text \<open>\<^verbatim>\<open>s.includes(sub)\<close> (\<open>includes\<close> is a reserved word of Isabelle).\<close>

fun startsWith :: "string \<Rightarrow> string \<Rightarrow> bool" where
  "startsWith s [] = True"
| "startsWith [] (c # cs) = False"
| "startsWith (d # ds) (c # cs) = (d = c \<and> startsWith ds cs)"

fun includes_str :: "string \<Rightarrow> string \<Rightarrow> bool" where
  "includes_str [] sub = startsWith [] sub"
| "includes_str (c # cs) sub = (startsWith (c # cs) sub \<or> includes_str cs sub)"

text \<open>\<^verbatim>\<open>getLogId\<close>: timestamp, a digest of the message, and the metadata action.\<close>

definition getLogId :: "LogEntry \<Rightarrow> string" where
  "getLogId log =
     (let messageHash =
            decimal (length (message log)) @ take 20 (message log)
              @ drop (length (message log) - 20) (message log);
          metadataId = (case metadata log of None \<Rightarrow> [] | Some m \<Rightarrow> orElse (action m) [])
      in timestamp log @ ''-'' @ messageHash @ ''-'' @ metadataId)"

text \<open>\<^verbatim>\<open>formatTimestamp\<close>: \<^verbatim>\<open>isoTimestamp.slice(11, 23)\<close>.\<close>

definition formatTimestamp :: "string \<Rightarrow> string" where
  "formatTimestamp isoTimestamp = take 12 (drop 11 isoTimestamp)"

section \<open>Phase durations\<close>

text \<open>
  The body of the loop of \<^verbatim>\<open>calculatePhaseDurations\<close> at index \<open>i\<close>, as a function on
  \<^verbatim>\<open>result\<close>: \<open>p\<close> is \<^verbatim>\<open>phases[i]\<close> and \<open>rest\<close> the phases after it, so \<^verbatim>\<open>i < phases.length - 1\<close>
  is \<open>rest \<noteq> []\<close> and \<^verbatim>\<open>phases[i + 1]\<close> is the head of \<open>rest\<close>. A \<^verbatim>\<open>continue\<close> leaves the
  result as it is at that point. A duration that is \<^verbatim>\<open>undefined\<close> or \<^verbatim>\<open>0\<close> counts as not set.
\<close>

definition calcIteration ::
  "(string \<Rightarrow> int option) \<Rightarrow> PhaseTimings \<Rightarrow> string option \<Rightarrow> string \<Rightarrow> string list
     \<Rightarrow> PhaseTimings \<Rightarrow> PhaseTimings" where
  "calcIteration parseDate pt completedAt p rest result =
     (case pt p of
        None \<Rightarrow> result
      | Some timing \<Rightarrow>
          (let result1 = result(p \<mapsto> timing)
           in if PhaseTiming.durationMs timing \<noteq> None \<and> PhaseTiming.durationMs timing \<noteq> Some 0
              then result1
              else
                (case parseDate (startedAt timing) of
                   None \<Rightarrow> result1
                 | Some startTime \<Rightarrow>
                     (let endTime =
                            (case rest of
                               nextPhase # _ \<Rightarrow>
                                 (case pt nextPhase of
                                    None \<Rightarrow> None
                                  | Some nextTiming \<Rightarrow> parseDate (startedAt nextTiming))
                             | [] \<Rightarrow>
                                 (case completedAt of
                                    None \<Rightarrow> None
                                  | Some c \<Rightarrow> if c = [] then None else parseDate c))
                      in case endTime of
                           None \<Rightarrow> result1
                         | Some e \<Rightarrow>
                             result1(p \<mapsto>
                               timing\<lparr>PhaseTiming.durationMs := Some (e - startTime)\<rparr>)))))"

text \<open>The loop over the phases from index \<open>i\<close> on.\<close>

fun calcLoop ::
  "(string \<Rightarrow> int option) \<Rightarrow> PhaseTimings \<Rightarrow> string option \<Rightarrow> string list
     \<Rightarrow> PhaseTimings \<Rightarrow> PhaseTimings" where
  "calcLoop parseDate pt completedAt [] result = result"
| "calcLoop parseDate pt completedAt (p # rest) result =
     calcLoop parseDate pt completedAt rest
       (calcIteration parseDate pt completedAt p rest result)"

definition calculatePhaseDurations ::
  "(string \<Rightarrow> int option) \<Rightarrow> PhaseTimings \<Rightarrow> string list \<Rightarrow> string option \<Rightarrow> PhaseTimings" where
  "calculatePhaseDurations parseDate pt phs completedAt =
     calcLoop parseDate pt completedAt phs Map.empty"

section \<open>Processing one log entry\<close>

text \<open>
  The block guarded by \<^verbatim>\<open>metadata.action === "report_phase_change_success"\<close>: a new, non-empty
  phase name is added to \<^verbatim>\<open>seenPhases\<close>, pushed on \<^verbatim>\<open>phases\<close> and given its \<^verbatim>\<open>startedAt\<close>.
\<close>

definition observePhase ::
  "(string \<Rightarrow> int option) \<Rightarrow> bool \<Rightarrow> PollState \<Rightarrow> LogEntry \<Rightarrow> Metadata
     \<Rightarrow> PollState \<times> LogLine list" where
  "observePhase parseDate showPhases st log m =
     (let ph = (case details m of None \<Rightarrow> None | Some d \<Rightarrow> phase d);
          ts = orElse (md_timestamp m) (timestamp log)
      in case ph of
           None \<Rightarrow> (st, [])
         | Some name \<Rightarrow>
             if name = [] \<or> name \<in> seenPhases st then (st, [])
             else
               (let outPrev =
                      (if showPhases \<and> PollState.phases st \<noteq> [] then
                         (case PollState.phaseTimings st (last (PollState.phases st)) of
                            None \<Rightarrow> []
                          | Some prevTiming \<Rightarrow>
                              (case parseDate (startedAt prevTiming) of
                                 None \<Rightarrow> []
                               | Some startTime \<Rightarrow>
                                   (case parseDate ts of
                                      None \<Rightarrow> []
                                    | Some endTime \<Rightarrow>
                                        [InfoPhaseDone (formatTimestamp ts)
                                           (last (PollState.phases st)) (endTime - startTime)])))
                       else []);
                    st' = st\<lparr>seenPhases := insert name (seenPhases st),
                              PollState.phases := PollState.phases st @ [name],
                              PollState.phaseTimings :=
                                (PollState.phaseTimings st)
                                  (name \<mapsto> \<lparr>PhaseTiming.startedAt = ts,
                                             PhaseTiming.durationMs = None\<rparr>)\<rparr>;
                    outStart = (if showPhases then [InfoPhaseStart (formatTimestamp ts) name]
                                else [])
                in (st', outPrev @ outStart)))"

text \<open>The \<^verbatim>\<open>durationMs\<close> of a phase in a timing map, when the phase has one.\<close>

definition durationOf :: "PhaseTimings \<Rightarrow> string \<Rightarrow> int option" where
  "durationOf timings p =
     (case timings p of None \<Rightarrow> None | Some t \<Rightarrow> PhaseTiming.durationMs t)"

text \<open>
  The block guarded by \<^verbatim>\<open>metadata.action === "pipeline_complete"\<close>. The keys of
  \<^verbatim>\<open>finalTimings\<close> are phases of the list, so \<^verbatim>\<open>Object.keys(finalTimings).length > 0\<close> is
  tested on the list.
\<close>

definition onPipelineComplete ::
  "(string \<Rightarrow> int option) \<Rightarrow> bool \<Rightarrow> PollState \<Rightarrow> LogEntry \<Rightarrow> Metadata
     \<Rightarrow> LogLine list \<times> PollingResult" where
  "onPipelineComplete parseDate showPhases st log m =
     (let dur = duration_ms m;
          bundleV = (case details m of None \<Rightarrow> None | Some d \<Rightarrow> bundle_version d);
          deployU = (case details m of None \<Rightarrow> None | Some d \<Rightarrow> deployment_url d);
          completedAt = orElse (md_timestamp m) (timestamp log);
          finalTimings =
            calculatePhaseDurations parseDate (PollState.phaseTimings st) (PollState.phases st)
              (Some completedAt);
          outLast =
            (if showPhases \<and> PollState.phases st \<noteq> [] then
               (case durationOf finalTimings (last (PollState.phases st)) of
                  None \<Rightarrow> []
                | Some d \<Rightarrow>
                    [InfoPhaseDone (formatTimestamp completedAt) (last (PollState.phases st)) d])
             else []);
          outDone =
            [InfoBlank,
             InfoCompleted (case dur of None \<Rightarrow> None | Some d \<Rightarrow> if d = 0 then None else Some d)]
            @ (case bundleV of None \<Rightarrow> [] | Some b \<Rightarrow> if b = [] then [] else [InfoBundleVersion b])
            @ (case deployU of None \<Rightarrow> [] | Some u \<Rightarrow> if u = [] then [] else [InfoDeploymentUrl u]);
          outDurations =
            (if showPhases \<and> list_ex (\<lambda>p. finalTimings p \<noteq> None) (PollState.phases st) then
               [InfoBlank, InfoPhaseDurationsHeader]
               @ concat (map (\<lambda>p. case durationOf finalTimings p of
                                     None \<Rightarrow> []
                                   | Some d \<Rightarrow> [InfoPhaseDuration p d])
                           (PollState.phases st))
             else [])
      in (outLast @ outDone @ outDurations,
          \<lparr>status = Success, durationMs = dur, errorMessage = None,
           phases = PollState.phases st, phaseTimings = Some finalTimings,
           bundleVersion = bundleV, deploymentUrl = deployU\<rparr>))"

text \<open>The block guarded by \<^verbatim>\<open>"pipeline_failed"\<close> or \<^verbatim>\<open>"pipeline_error"\<close>.\<close>

definition onPipelineFailed ::
  "(string \<Rightarrow> int option) \<Rightarrow> bool \<Rightarrow> PollState \<Rightarrow> LogEntry \<Rightarrow> Metadata
     \<Rightarrow> LogLine list \<times> PollingResult" where
  "onPipelineFailed parseDate showPhases st log m =
     (let msg = orElse (md_message m) ''Deployment failed without error message'';
          failedAt = orElse (md_timestamp m) (timestamp log);
          outPhase =
            (if showPhases \<and> PollState.phases st \<noteq> [] then
               [InfoPhaseFailed (formatTimestamp failedAt) (last (PollState.phases st)), InfoBlank]
             else [])
      in (outPhase @ [ErrorDeploymentFailed msg],
          \<lparr>status = Failed, durationMs = None, errorMessage = Some msg,
           phases = PollState.phases st,
           phaseTimings =
             Some (calculatePhaseDurations parseDate (PollState.phaseTimings st)
                     (PollState.phases st) (Some failedAt)),
           bundleVersion = None, deploymentUrl = None\<rparr>))"

text \<open>
  The block guarded by \<^verbatim>\<open>logLevel === "error"\<close>:
  \<^verbatim>\<open>rawError = log.metadata?.error ?? log.metadata?.message\<close>, and the entry's own message
  unless \<^verbatim>\<open>typeof rawError === "string"\<close>.
\<close>

definition rawErrorOf :: "LogEntry \<Rightarrow> json option" where
  "rawErrorOf log =
     (case metadata log of
        None \<Rightarrow> None
      | Some m \<Rightarrow>
          (case error m of
             None \<Rightarrow> map_option JStr (md_message m)
           | Some JNull \<Rightarrow> map_option JStr (md_message m)
           | Some v \<Rightarrow> Some v))"

definition errorMessageOf :: "LogEntry \<Rightarrow> string" where
  "errorMessageOf log = (case rawErrorOf log of Some (JStr s) \<Rightarrow> s | _ \<Rightarrow> message log)"

definition onErrorLevel ::
  "(string \<Rightarrow> int option) \<Rightarrow> bool \<Rightarrow> PollState \<Rightarrow> LogEntry \<Rightarrow> LogLine list \<times> PollingResult" where
  "onErrorLevel parseDate showPhases st log =
     (let outPhase =
            (if showPhases \<and> PollState.phases st \<noteq> [] then
               [InfoPhaseFailed (formatTimestamp (timestamp log)) (last (PollState.phases st)),
                InfoBlank]
             else []);
          msg = errorMessageOf log
      in (outPhase @ [ErrorDeploymentFailed msg],
          \<lparr>status = Failed, durationMs = None, errorMessage = Some msg,
           phases = PollState.phases st,
           phaseTimings =
             Some (calculatePhaseDurations parseDate (PollState.phaseTimings st)
                     (PollState.phases st) None),
           bundleVersion = None, deploymentUrl = None\<rparr>))"

text \<open>
  The body of \<^verbatim>\<open>for (const log of logs)\<close>: the new state, the lines written, and the result
  when the body returns from \<^verbatim>\<open>pollForCompletion\<close>.
\<close>

definition processLog ::
  "(string \<Rightarrow> int option) \<Rightarrow> LogVerbosity \<Rightarrow> PollState \<Rightarrow> LogEntry
     \<Rightarrow> PollState \<times> LogLine list \<times> PollingResult option" where
  "processLog parseDate verbosity st log =
     (let showPhases = (verbosity \<noteq> LvNone);
          showLogs = (verbosity = LvNormal \<or> verbosity = LvVerbose);
          showDebugLogs = (verbosity = LvVerbose);
          logId = getLogId log
      in if logId \<in> seenLogIds st then (st, [], None)
         else
           (let st1 = st\<lparr>seenLogIds := insert logId (seenLogIds st)\<rparr>;
                logLevel = toLowerCase (level log);
                outLog =
                  (if showLogs \<and> (logLevel \<noteq> ''debug'' \<or> showDebugLogs)
                   then [InfoLog (formatTimestamp (timestamp log)) (level log) (message log)]
                   else [])
            in if logLevel = ''error'' then
                 (case onErrorLevel parseDate showPhases st1 log of
                    (out, r) \<Rightarrow> (st1, outLog @ out, Some r))
               else
                 (case metadata log of
                    None \<Rightarrow> (st1, outLog, None)
                  | Some m \<Rightarrow>
                      if \<not> truthy (action m) then (st1, outLog, None)
                      else
                        (case (if action m = Some ''report_phase_change_success''
                               then observePhase parseDate showPhases st1 log m
                               else (st1, [])) of
                           (st2, outPhase) \<Rightarrow>
                             if action m = Some ''pipeline_complete'' then
                               (case onPipelineComplete parseDate showPhases st2 log m of
                                  (out, r) \<Rightarrow> (st2, outLog @ outPhase @ out, Some r))
                             else if action m = Some ''pipeline_failed''
                                     \<or> action m = Some ''pipeline_error'' then
                               (case onPipelineFailed parseDate showPhases st2 log m of
                                  (out, r) \<Rightarrow> (st2, outLog @ outPhase @ out, Some r))
                             else (st2, outLog @ outPhase, None)))))"

text \<open>The \<^verbatim>\<open>for\<close> loop over one fetched batch; it stops at the first \<^verbatim>\<open>return\<close>.\<close>

fun processLogs ::
  "(string \<Rightarrow> int option) \<Rightarrow> LogVerbosity \<Rightarrow> PollState \<Rightarrow> LogEntry list
     \<Rightarrow> PollState \<times> LogLine list \<times> PollingResult option" where
  "processLogs parseDate verbosity st [] = (st, [], None)"
| "processLogs parseDate verbosity st (log # logs) =
     (case processLog parseDate verbosity st log of
        (st1, out1, Some r) \<Rightarrow> (st1, out1, Some r)
      | (st1, out1, None) \<Rightarrow>
          (case processLogs parseDate verbosity st1 logs of
             (st2, out2, r) \<Rightarrow> (st2, out1 @ out2, r)))"

section \<open>The poll loop\<close>

text \<open>
  \<^verbatim>\<open>cfg = { ...DEFAULT_POLLING_CONFIG, ...config }\<close>: every option has a value.
\<close>

record RequiredPollingConfig =
  pollDelayMs :: int
  logLimit :: int
  logVerbosity :: LogVerbosity

definition DEFAULT_POLLING_CONFIG :: RequiredPollingConfig where
  "DEFAULT_POLLING_CONFIG = \<lparr>pollDelayMs = 2000, logLimit = 200, logVerbosity = LvNormal\<rparr>"

definition mergeConfig :: "RequiredPollingConfig \<Rightarrow> PollingConfig \<Rightarrow> RequiredPollingConfig" where
  "mergeConfig d config =
     \<lparr>pollDelayMs = (case PollingConfig.pollDelayMs config of
                       None \<Rightarrow> RequiredPollingConfig.pollDelayMs d | Some v \<Rightarrow> v),
      logLimit = (case PollingConfig.logLimit config of
                    None \<Rightarrow> RequiredPollingConfig.logLimit d | Some v \<Rightarrow> v),
      logVerbosity = (case PollingConfig.logVerbosity config of
                        None \<Rightarrow> RequiredPollingConfig.logVerbosity d | Some v \<Rightarrow> v)\<rparr>"

text \<open>
  What one call of \<^verbatim>\<open>client.getPolicyLogs\<close> does: it resolves to a batch or rejects with an
  error whose message is given.
\<close>

datatype FetchOutcome = Logs "LogEntry list" | FetchError string

text \<open>
  The session as it runs: the poller's variables, the lines written so far, the number of
  calls of \<^verbatim>\<open>getPolicyLogs\<close> and the delays slept.
\<close>

record Run =
  pstate :: PollState
  written :: "LogLine list"
  fetchCalls :: nat
  sleeps :: "int list"

definition isPermanentAuthError :: "string \<Rightarrow> bool" where
  "isPermanentAuthError msg =
     (includes_str msg ''insufficient_scope'' \<or> includes_str msg ''Forbidden'')"

definition authErrorMessage :: string where
  "authErrorMessage =
     ''Missing 'pipeline:read' scope in trust policy. ''
     @ ''Add the 'Read' permission in the EnforceAuth console.''"

text \<open>
  One iteration of \<^verbatim>\<open>while (true)\<close>. The environment gives, for the iteration, the value
  \<^verbatim>\<open>Date.now()\<close> returns at its top and what its fetch does (unused when the iteration
  times out). \<open>Inr\<close> is a \<^verbatim>\<open>return\<close> from \<^verbatim>\<open>pollForCompletion\<close>; \<open>Inl\<close> is the session
  after the \<^verbatim>\<open>sleep\<close> that ends the iteration.
\<close>

definition pollStep ::
  "(string \<Rightarrow> int option) \<Rightarrow> RequiredPollingConfig \<Rightarrow> int \<Rightarrow> int \<Rightarrow> Run
     \<Rightarrow> int \<times> FetchOutcome \<Rightarrow> Run + PollingResult \<times> Run" where
  "pollStep parseDate cfg startTime timeoutMinutes run tick =
     (let now = fst tick;
          fetched = snd tick;
          elapsed = now - startTime;
          timeoutMs = timeoutMinutes * 60 * 1000;
          st = pstate run
      in if elapsed \<ge> timeoutMs then
           Inr (\<lparr>status = Timeout, durationMs = None, errorMessage = None,
                 phases = PollState.phases st,
                 phaseTimings =
                   Some (calculatePhaseDurations parseDate (PollState.phaseTimings st)
                           (PollState.phases st) None),
                 bundleVersion = None, deploymentUrl = None\<rparr>,
                run\<lparr>written := written run @ [ErrorTimeout timeoutMinutes (PollState.phases st)]\<rparr>)
         else
           (case fetched of
              FetchError msg \<Rightarrow>
                if isPermanentAuthError msg then
                  Inr (\<lparr>status = Failed, durationMs = None,
                        errorMessage = Some authErrorMessage,
                        phases = PollState.phases st,
                        phaseTimings =
                          Some (calculatePhaseDurations parseDate (PollState.phaseTimings st)
                                  (PollState.phases st) None),
                        bundleVersion = None, deploymentUrl = None\<rparr>,
                       run\<lparr>written := written run @ [ErrorAuthorization],
                           fetchCalls := Suc (fetchCalls run)\<rparr>)
                else
                  Inl (run\<lparr>written := written run @ [WarnFetchFailed msg],
                           fetchCalls := Suc (fetchCalls run),
                           sleeps := sleeps run @ [RequiredPollingConfig.pollDelayMs cfg]\<rparr>)
            | Logs logs \<Rightarrow>
                (case processLogs parseDate (RequiredPollingConfig.logVerbosity cfg) st logs of
                   (st1, out, Some r) \<Rightarrow>
                     Inr (r, run\<lparr>pstate := st1, written := written run @ out,
                                 fetchCalls := Suc (fetchCalls run)\<rparr>)
                 | (st1, out, None) \<Rightarrow>
                     Inl (run\<lparr>pstate := st1, written := written run @ out,
                              fetchCalls := Suc (fetchCalls run),
                              sleeps := sleeps run @ [RequiredPollingConfig.pollDelayMs cfg]\<rparr>))))"

text \<open>
  The loop over a script with one entry per iteration. \<open>Inl run\<close> means that the script
  ended while the loop was still polling, in the session \<open>run\<close>: the loop has not returned.
\<close>

fun pollLoop ::
  "(string \<Rightarrow> int option) \<Rightarrow> RequiredPollingConfig \<Rightarrow> int \<Rightarrow> int \<Rightarrow> Run
     \<Rightarrow> (int \<times> FetchOutcome) list \<Rightarrow> Run + PollingResult \<times> Run" where
  "pollLoop parseDate cfg startTime timeoutMinutes run [] = Inl run"
| "pollLoop parseDate cfg startTime timeoutMinutes run (tick # rest) =
     (case pollStep parseDate cfg startTime timeoutMinutes run tick of
        Inr res \<Rightarrow> Inr res
      | Inl run1 \<Rightarrow> pollLoop parseDate cfg startTime timeoutMinutes run1 rest)"

definition initialState :: PollState where
  "initialState =
     \<lparr>seenLogIds = {}, seenPhases = {}, PollState.phases = [],
      PollState.phaseTimings = Map.empty\<rparr>"

text \<open>
  \<^verbatim>\<open>pollForCompletion\<close>. \<open>startNow\<close> is the value of \<^verbatim>\<open>Date.now()\<close> read before the loop, and
  \<open>script\<close> the environment of the loop. The client, the entity and the run identifier are
  the same in every call of the fetch, so they are part of the script.
\<close>

definition pollForCompletion ::
  "(string \<Rightarrow> int option) \<Rightarrow> int \<Rightarrow> (int \<times> FetchOutcome) list \<Rightarrow> int \<Rightarrow> PollingConfig
     \<Rightarrow> Run + PollingResult \<times> Run" where
  "pollForCompletion parseDate startNow script timeoutMinutes config =
     pollLoop parseDate (mergeConfig DEFAULT_POLLING_CONFIG config) startNow timeoutMinutes
       \<lparr>pstate = initialState, written = [InfoPolling timeoutMinutes, InfoBlank],
        fetchCalls = 0, sleeps = []\<rparr>
       script"

section \<open>The public predicates and their caller\<close>

definition isSuccessful :: "PollingResult \<Rightarrow> bool" where
  "isSuccessful r = (status r = Success)"

definition isFailed :: "PollingResult \<Rightarrow> bool" where
  "isFailed r = (status r = Failed \<or> status r = Timeout)"

text \<open>
  The end of \<^verbatim>\<open>run\<close> in main.ts: the argument of \<^verbatim>\<open>core.setFailed\<close> when the action is marked
  failed after polling, \<open>None\<close> when it is not.
\<close>

definition setFailedAfterPolling :: "PollingResult \<Rightarrow> string option" where
  "setFailedAfterPolling r =
     (if isFailed r
      then Some (''Deployment failed: ''
                 @ orElse (errorMessage r) ''Deployment failed without error message'')
      else None)"

section \<open>Notions used in the statements\<close>

text \<open>\<^verbatim>\<open>log.metadata?.action\<close>.\<close>

definition metadataAction :: "LogEntry \<Rightarrow> string option" where
  "metadataAction log = (case metadata log of None \<Rightarrow> None | Some m \<Rightarrow> action m)"

text \<open>The session in which an outcome of the loop leaves the poller.\<close>

definition sessionOf :: "Run + PollingResult \<times> Run \<Rightarrow> Run" where
  "sessionOf outcome = (case outcome of Inl run \<Rightarrow> run | Inr res \<Rightarrow> snd res)"

text \<open>
  The entries that the specification calls terminal: error level, or one of the three
  terminal actions.
\<close>

definition isTerminalEntry :: "LogEntry \<Rightarrow> bool" where
  "isTerminalEntry log =
     (toLowerCase (level log) = ''error''
      \<or> metadataAction log = Some ''pipeline_complete''
      \<or> metadataAction log = Some ''pipeline_failed''
      \<or> metadataAction log = Some ''pipeline_error'')"

text \<open>
  The priority order of the failure message in the words of the specification: the message
  is \<^verbatim>\<open>metadata.error\<close>, else \<^verbatim>\<open>metadata.message\<close>, else the entry's own message.
\<close>

definition claimedErrorMessage :: "LogEntry \<Rightarrow> string" where
  "claimedErrorMessage log =
     (case metadata log of
        None \<Rightarrow> message log
      | Some m \<Rightarrow>
          (case error m of
             Some (JStr s) \<Rightarrow> s
           | _ \<Rightarrow> (case md_message m of Some s \<Rightarrow> s | None \<Rightarrow> message log)))"

text \<open>\<^verbatim>\<open>metadata.error\<close> is absent, \<^verbatim>\<open>null\<close> or a string.\<close>

definition errorIsStringOrMissing :: "LogEntry \<Rightarrow> bool" where
  "errorIsStringOrMissing log =
     (case metadata log of
        None \<Rightarrow> True
      | Some m \<Rightarrow>
          (case error m of
             None \<Rightarrow> True
           | Some JNull \<Rightarrow> True
           | Some (JStr s) \<Rightarrow> True
           | Some _ \<Rightarrow> False))"

text \<open>
  An iteration within the deadline whose fetch fails without a marker of a permanent
  authorization error, and the message of a failed fetch.
\<close>

definition isTransientTick :: "int \<Rightarrow> int \<Rightarrow> int \<times> FetchOutcome \<Rightarrow> bool" where
  "isTransientTick start tm tick =
     (fst tick - start < tm * 60 * 1000
      \<and> (case snd tick of FetchError msg \<Rightarrow> \<not> isPermanentAuthError msg | Logs logs \<Rightarrow> False))"

definition fetchErrorMessage :: "FetchOutcome \<Rightarrow> string" where
  "fetchErrorMessage f = (case f of FetchError msg \<Rightarrow> msg | Logs logs \<Rightarrow> [])"

text \<open>
  The phase a phase-transition entry reports (\<^verbatim>\<open>metadata.details?.phase\<close> under the action
  \<^verbatim>\<open>report_phase_change_success\<close>), and the instant an entry is taken to happen at
  (\<^verbatim>\<open>metadata.timestamp || log.timestamp\<close>).
\<close>

definition phaseOf :: "LogEntry \<Rightarrow> string option" where
  "phaseOf log =
     (case metadata log of
        None \<Rightarrow> None
      | Some m \<Rightarrow>
          if action m = Some ''report_phase_change_success''
          then (case details m of None \<Rightarrow> None | Some d \<Rightarrow> phase d)
          else None)"

definition instantOf :: "LogEntry \<Rightarrow> string" where
  "instantOf log =
     (case metadata log of
        None \<Rightarrow> timestamp log
      | Some m \<Rightarrow> orElse (md_timestamp m) (timestamp log))"

text \<open>
  The three updates of a first observation: \<^verbatim>\<open>seenPhases.add(phase)\<close>,
  \<^verbatim>\<open>phases.push(phase)\<close> and \<^verbatim>\<open>phaseTimings[phase] = { startedAt: timestamp }\<close>; and the
  timing recorded at the first observation of the phase an entry reports.
\<close>

definition acceptPhase :: "PollState \<Rightarrow> string \<Rightarrow> string \<Rightarrow> PollState" where
  "acceptPhase st name ts =
     st\<lparr>seenPhases := insert name (seenPhases st),
        PollState.phases := PollState.phases st @ [name],
        PollState.phaseTimings :=
          (PollState.phaseTimings st)
            (name \<mapsto> \<lparr>PhaseTiming.startedAt = ts, PhaseTiming.durationMs = None\<rparr>)\<rparr>"

definition startTiming :: "LogEntry \<Rightarrow> PhaseTiming" where
  "startTiming log = \<lparr>PhaseTiming.startedAt = instantOf log, PhaseTiming.durationMs = None\<rparr>"

text \<open>
  The invariant of the phase tracker: the phase list has no repetition and no empty name,
  \<^verbatim>\<open>seenPhases\<close> is its set of elements, and every phase of the list has a timing without
  a duration.
\<close>

definition wellFormed :: "PollState \<Rightarrow> bool" where
  "wellFormed st =
     (seenPhases st = set (PollState.phases st)
      \<and> distinct (PollState.phases st)
      \<and> [] \<notin> set (PollState.phases st)
      \<and> list_all (\<lambda>p. case PollState.phaseTimings st p of
                           None \<Rightarrow> False
                         | Some t \<Rightarrow> PhaseTiming.durationMs t = None)
            (PollState.phases st))"

text \<open>
  An entry that completes the pipeline: its action is \<^verbatim>\<open>pipeline_complete\<close> and its level is
  not \<^verbatim>\<open>error\<close>. The result returned for it, given the phases and the final timings: the
  optional payload is carried from the entry's metadata.
\<close>

definition isCompleteEntry :: "LogEntry \<Rightarrow> bool" where
  "isCompleteEntry log =
     (toLowerCase (level log) \<noteq> ''error'' \<and> metadataAction log = Some ''pipeline_complete'')"

definition completionOf :: "LogEntry \<Rightarrow> string list \<Rightarrow> PhaseTimings \<Rightarrow> PollingResult" where
  "completionOf log phs finalTimings =
     \<lparr>status = Success,
      durationMs = (case metadata log of None \<Rightarrow> None | Some m \<Rightarrow> duration_ms m),
      errorMessage = None, phases = phs, phaseTimings = Some finalTimings,
      bundleVersion =
        (case metadata log of
           None \<Rightarrow> None
         | Some m \<Rightarrow> (case details m of None \<Rightarrow> None | Some d \<Rightarrow> bundle_version d)),
      deploymentUrl =
        (case metadata log of
           None \<Rightarrow> None
         | Some m \<Rightarrow> (case details m of None \<Rightarrow> None | Some d \<Rightarrow> deployment_url d))\<rparr>"

text \<open>
  A session without the lines it has written, and an outcome of the loop without them:
  what remains is the returned result (or the fact that the loop is still polling), the
  poller's state, the number of fetches and the delays slept.
\<close>

definition withoutOutput :: "Run \<Rightarrow> Run" where
  "withoutOutput run = run\<lparr>written := []\<rparr>"

definition decisionOf :: "Run + PollingResult \<times> Run \<Rightarrow> Run + PollingResult \<times> Run" where
  "decisionOf outcome =
     (case outcome of
        Inl run \<Rightarrow> Inl (withoutOutput run)
      | Inr res \<Rightarrow> Inr (fst res, withoutOutput (snd res)))"

section \<open>Example inputs\<close>

text \<open>
  A date parser on four instants, log entries, configurations and scripts for the examples.
  The entry \<open>exampleErrorLog\<close> has error level, a terminal-success action and a string as
  \<^verbatim>\<open>metadata.error\<close>; \<open>exampleErrorLogStructured\<close> differs in that \<^verbatim>\<open>metadata.error\<close> is an object.
\<close>

definition exampleParseDate :: "string \<Rightarrow> int option" where
  "exampleParseDate =
     map_of [(''2024-01-01T00:00:00.000Z'', 1704067200000),
             (''2024-01-01T00:00:02.000Z'', 1704067202000),
             (''2024-01-01T00:00:05.000Z'', 1704067205000),
             (''2024-01-01T00:00:09.000Z'', 1704067209000)]"

definition examplePhaseLog :: "string \<Rightarrow> string \<Rightarrow> LogEntry" where
  "examplePhaseLog ts name =
     \<lparr>timestamp = ts, level = ''info'', message = ''Phase changed'',
      metadata = Some \<lparr>action = Some ''report_phase_change_success'',
                       details = Some \<lparr>phase = Some name, bundle_version = None,
                                        deployment_url = None\<rparr>,
                       md_timestamp = None, md_message = None, error = None,
                       duration_ms = None\<rparr>\<rparr>"

definition exampleCompleteLog :: "string \<Rightarrow> LogEntry" where
  "exampleCompleteLog ts =
     \<lparr>timestamp = ts, level = ''info'', message = ''Pipeline complete'',
      metadata = Some \<lparr>action = Some ''pipeline_complete'',
                       details = Some \<lparr>phase = None, bundle_version = Some ''v7'',
                                        deployment_url = None\<rparr>,
                       md_timestamp = None, md_message = None, error = None,
                       duration_ms = Some 4200\<rparr>\<rparr>"

definition exampleErrorLog :: LogEntry where
  "exampleErrorLog =
     \<lparr>timestamp = ''2024-01-01T00:00:02.000Z'', level = ''ERROR'',
      message = ''step exited with code 1'',
      metadata = Some \<lparr>action = Some ''pipeline_complete'', details = None,
                       md_timestamp = None, md_message = Some ''bundle validation failed'',
                       error = Some (JStr ''policy compile error''), duration_ms = Some 4200\<rparr>\<rparr>"

definition exampleErrorLogStructured :: LogEntry where
  "exampleErrorLogStructured =
     \<lparr>timestamp = ''2024-01-01T00:00:02.000Z'', level = ''ERROR'',
      message = ''step exited with code 1'',
      metadata = Some \<lparr>action = Some ''pipeline_complete'', details = None,
                       md_timestamp = None, md_message = Some ''bundle validation failed'',
                       error = Some (JObj [(''code'', JStr ''E_COMPILE'')]),
                       duration_ms = Some 4200\<rparr>\<rparr>"

definition exampleRun :: Run where
  "exampleRun = \<lparr>pstate = initialState, written = [], fetchCalls = 0, sleeps = []\<rparr>"

definition exampleConfig :: PollingConfig where
  "exampleConfig =
     \<lparr>PollingConfig.pollDelayMs = Some 2000, PollingConfig.logLimit = None,
      PollingConfig.logVerbosity = None\<rparr>"

definition exampleIdleScript :: "(int \<times> FetchOutcome) list" where
  "exampleIdleScript =
     (0, Logs [examplePhaseLog ''2024-01-01T00:00:00.000Z'' ''build''])
     # map (\<lambda>i. (int i * 2000, Logs [])) [1..<30]"

definition exampleThreePhaseScript :: "(int \<times> FetchOutcome) list" where
  "exampleThreePhaseScript =
     [(5, Logs [examplePhaseLog ''2024-01-01T00:00:00.000Z'' ''plan'']),
      (2005, Logs [examplePhaseLog ''2024-01-01T00:00:00.000Z'' ''plan'',
                   examplePhaseLog ''2024-01-01T00:00:02.000Z'' ''apply'']),
      (4005, Logs [examplePhaseLog ''2024-01-01T00:00:00.000Z'' ''plan'',
                   examplePhaseLog ''2024-01-01T00:00:02.000Z'' ''apply'',
                   examplePhaseLog ''2024-01-01T00:00:05.000Z'' ''verify''])]"

definition exampleThreePhaseState :: PollState where
  "exampleThreePhaseState =
     pstate (sessionOf (pollLoop exampleParseDate DEFAULT_POLLING_CONFIG 0 10 exampleRun
                          exampleThreePhaseScript))"

section \<open>Basic facts about one entry\<close>

lemma processLog_duplicate:
  "getLogId log \<in> seenLogIds st \<Longrightarrow> processLog parseDate v st log = (st, [], None)"
  by (simp add: processLog_def Let_def)

lemma observePhase_seenLogIds:
  "seenLogIds (fst (observePhase parseDate sp st log m)) = seenLogIds st"
  by (simp add: observePhase_def Let_def split: option.splits)

lemma processLog_seenLogIds:
  "seenLogIds (fst (processLog parseDate v st log)) = insert (getLogId log) (seenLogIds st)"
  by (simp add: processLog_def Let_def case_prod_beta observePhase_seenLogIds insert_absorb
      split: option.splits)

section \<open>Batches and the seen-set\<close>

lemma getLogId_alt:
  "getLogId log =
     timestamp log @ ''-''
       @ (decimal (length (message log)) @ take 20 (message log)
            @ drop (length (message log) - 20) (message log))
       @ ''-'' @ orElse (metadataAction log) []"
  by (simp add: getLogId_def metadataAction_def orElse_def split: option.splits)

lemma getLogId_cong:
  "timestamp d = timestamp e \<Longrightarrow> message d = message e \<Longrightarrow> metadataAction d = metadataAction e
   \<Longrightarrow> getLogId d = getLogId e"
  by (simp add: getLogId_alt)

lemma processLogs_append:
  "processLogs pd v st (xs @ ys) =
     (case processLogs pd v st xs of
        (st1, out1, Some r) \<Rightarrow> (st1, out1, Some r)
      | (st1, out1, None) \<Rightarrow>
          (case processLogs pd v st1 ys of (st2, out2, r) \<Rightarrow> (st2, out1 @ out2, r)))"
  by (induction xs arbitrary: st) (auto split: prod.splits option.splits)

lemma processLogs_seen_mono:
  "seenLogIds st \<subseteq> seenLogIds (fst (processLogs pd v st logs))"
proof (induction logs arbitrary: st)
  case Nil
  show ?case by simp
next
  case (Cons log logs)
  obtain st1 out1 r1 where p: "processLog pd v st log = (st1, out1, r1)"
    by (cases "processLog pd v st log") auto
  have s1: "seenLogIds st \<subseteq> seenLogIds st1"
    using processLog_seenLogIds[of pd v st log] p by auto
  show ?case
  proof (cases r1)
    case None
    with p s1 Cons.IH[of st1] show ?thesis
      by (auto split: prod.splits)
  next
    case (Some r)
    with p s1 show ?thesis by simp
  qed
qed

lemma processLogs_marks:
  "snd (snd (processLogs pd v st logs)) = None
   \<Longrightarrow> getLogId ` set logs \<subseteq> seenLogIds (fst (processLogs pd v st logs))"
proof (induction logs arbitrary: st)
  case Nil
  show ?case by simp
next
  case (Cons log logs)
  obtain st1 out1 r1 where p: "processLog pd v st log = (st1, out1, r1)"
    by (cases "processLog pd v st log") auto
  have m: "getLogId log \<in> seenLogIds st1"
    using processLog_seenLogIds[of pd v st log] p by auto
  show ?case
  proof (cases r1)
    case None
    have eq: "processLogs pd v st (log # logs) =
              (fst (processLogs pd v st1 logs), out1 @ fst (snd (processLogs pd v st1 logs)),
               snd (snd (processLogs pd v st1 logs)))"
      using p None by (simp add: case_prod_beta)
    with Cons.prems have n: "snd (snd (processLogs pd v st1 logs)) = None" by simp
    from Cons.IH[OF n] processLogs_seen_mono[of st1 pd v logs] m eq show ?thesis by auto
  next
    case (Some r)
    with p Cons.prems show ?thesis by simp
  qed
qed

lemma processLogs_drop_duplicate:
  assumes "getLogId d \<in> seenLogIds st"
  shows "processLogs pd v st (xs @ d # ys) = processLogs pd v st (xs @ ys)"
proof -
  obtain st1 out1 r1 where p: "processLogs pd v st xs = (st1, out1, r1)"
    by (cases "processLogs pd v st xs") auto
  have "seenLogIds st \<subseteq> seenLogIds st1"
    using processLogs_seen_mono[of st pd v xs] p by simp
  with assms have "getLogId d \<in> seenLogIds st1" by auto
  then have "processLogs pd v st1 (d # ys) = processLogs pd v st1 ys"
    by (simp add: processLog_duplicate case_prod_beta)
  then show ?thesis
    by (simp add: processLogs_append[of pd v st xs] p)
qed

lemma pollStep_Inl_seen:
  assumes "pollStep pd cfg start tm run tick = Inl run1"
  shows "seenLogIds (pstate run) \<subseteq> seenLogIds (pstate run1)"
proof (cases "snd tick")
  case (FetchError msg)
  with assms show ?thesis
    by (auto simp: pollStep_def Let_def split: if_splits)
next
  case (Logs logs)
  with assms processLogs_seen_mono[of "pstate run" pd "RequiredPollingConfig.logVerbosity cfg" logs]
  show ?thesis
    by (auto simp: pollStep_def Let_def split: if_splits prod.splits option.splits)
qed

lemma pollStep_Inl_marks:
  assumes "pollStep pd cfg start tm run (now, Logs logs) = Inl run1"
  shows "getLogId ` set logs \<subseteq> seenLogIds (pstate run1)"
  using assms processLogs_marks[of pd "RequiredPollingConfig.logVerbosity cfg" "pstate run" logs]
  by (auto simp: pollStep_def Let_def split: if_splits prod.splits option.splits)

lemma pollStep_Inr_seen:
  assumes "pollStep pd cfg start tm run tick = Inr (r, run1)"
  shows "seenLogIds (pstate run) \<subseteq> seenLogIds (pstate run1)"
proof (cases "snd tick")
  case (FetchError msg)
  with assms show ?thesis
    by (auto simp: pollStep_def Let_def split: if_splits)
next
  case (Logs logs)
  with assms processLogs_seen_mono[of "pstate run" pd "RequiredPollingConfig.logVerbosity cfg" logs]
  show ?thesis
    by (auto simp: pollStep_def Let_def split: if_splits prod.splits option.splits)
qed

lemma pollLoop_seen_mono:
  "seenLogIds (pstate run) \<subseteq> seenLogIds (pstate (sessionOf (pollLoop pd cfg start tm run script)))"
proof (induction script arbitrary: run)
  case Nil
  show ?case by (simp add: sessionOf_def)
next
  case (Cons tick rest)
  show ?case
  proof (cases "pollStep pd cfg start tm run tick")
    case (Inl run1)
    with pollStep_Inl_seen[OF Inl] Cons.IH[of run1] show ?thesis by auto
  next
    case (Inr res)
    obtain r run1 where "res = (r, run1)" by (cases res) auto
    with Inr pollStep_Inr_seen[of pd cfg start tm run tick r run1] show ?thesis
      by (simp add: sessionOf_def)
  qed
qed

lemma pollLoop_append:
  "pollLoop pd cfg start tm run (xs @ ys) =
     (case pollLoop pd cfg start tm run xs of
        Inr res \<Rightarrow> Inr res
      | Inl run1 \<Rightarrow> pollLoop pd cfg start tm run1 ys)"
  by (induction xs arbitrary: run) (auto split: sum.splits)

lemma pollStep_drop_duplicate:
  assumes "getLogId d \<in> seenLogIds (pstate run)"
  shows "pollStep pd cfg start tm run (now, Logs (xs @ d # ys))
         = pollStep pd cfg start tm run (now, Logs (xs @ ys))"
  by (simp add: pollStep_def Let_def processLogs_drop_duplicate[OF assms])

section \<open>Returning from a batch\<close>

lemma processLog_returns_iff:
  "(snd (snd (processLog pd v st log)) \<noteq> None)
   = (getLogId log \<notin> seenLogIds st \<and> isTerminalEntry log)"
  by (simp add: processLog_def Let_def case_prod_beta isTerminalEntry_def metadataAction_def
      truthy_def split: option.splits)

lemma processLogs_first_return:
  assumes "processLogs pd v st pre = (st1, out1, None)"
    and "processLog pd v st1 t = (st2, out2, Some r)"
  shows "processLogs pd v st (pre @ t # post) = (st2, out1 @ out2, Some r)"
  using assms by (simp add: processLogs_append)

lemma pollStep_logs_return:
  assumes "processLogs pd (RequiredPollingConfig.logVerbosity cfg) (pstate run) logs
           = (st2, out, Some r)"
    and "now - start < tm * 60 * 1000"
  shows "pollStep pd cfg start tm run (now, Logs logs)
         = Inr (r, run\<lparr>pstate := st2, written := written run @ out,
                        fetchCalls := Suc (fetchCalls run)\<rparr>)"
  using assms by (simp add: pollStep_def Let_def)

section \<open>Error-level entries\<close>

lemma errorMessageOf_cases:
  "errorMessageOf log
   = (if errorIsStringOrMissing log then claimedErrorMessage log else message log)"
  by (simp add: errorMessageOf_def rawErrorOf_def errorIsStringOrMissing_def
      claimedErrorMessage_def split: option.splits json.splits)

lemma processLog_error_level:
  assumes "getLogId log \<notin> seenLogIds st" and "toLowerCase (level log) = ''error''"
  shows "\<exists>out. processLog pd v st log
           = (st\<lparr>seenLogIds := insert (getLogId log) (seenLogIds st)\<rparr>, out,
              Some \<lparr>status = Failed, durationMs = None,
                    errorMessage = Some (errorMessageOf log),
                    phases = PollState.phases st,
                    phaseTimings =
                      Some (calculatePhaseDurations pd (PollState.phaseTimings st)
                              (PollState.phases st) None),
                    bundleVersion = None, deploymentUrl = None\<rparr>)"
  using assms by (simp add: processLog_def onErrorLevel_def Let_def)

section \<open>Fetch errors\<close>

text \<open>\<open>includes_str\<close> is the substring test.\<close>

lemma startsWith_iff: "startsWith s sub = (\<exists>q. s = sub @ q)"
  by (induction s sub rule: startsWith.induct) auto

lemma includes_str_iff: "includes_str s sub = (\<exists>p q. s = p @ sub @ q)"
proof (induction s)
  case Nil
  show ?case by (auto simp: startsWith_iff)
next
  case (Cons c cs)
  have "(\<exists>p q. c # cs = p @ sub @ q)
        = ((\<exists>q. c # cs = sub @ q) \<or> (\<exists>p q. cs = p @ sub @ q))"
  proof
    assume "\<exists>p q. c # cs = p @ sub @ q"
    then obtain p q where e: "c # cs = p @ sub @ q" by blast
    show "(\<exists>q. c # cs = sub @ q) \<or> (\<exists>p q. cs = p @ sub @ q)"
    proof (cases p)
      case Nil
      with e show ?thesis by auto
    next
      case (Cons a p')
      with e have "cs = p' @ sub @ q" by simp
      then show ?thesis by blast
    qed
  next
    assume "(\<exists>q. c # cs = sub @ q) \<or> (\<exists>p q. cs = p @ sub @ q)"
    then show "\<exists>p q. c # cs = p @ sub @ q"
    proof
      assume "\<exists>q. c # cs = sub @ q"
      then obtain q where "c # cs = [] @ sub @ q" by auto
      then show ?thesis by blast
    next
      assume "\<exists>p q. cs = p @ sub @ q"
      then obtain p q where "c # cs = (c # p) @ sub @ q" by auto
      then show ?thesis by blast
    qed
  qed
  with Cons.IH show ?case
    by (simp add: startsWith_iff)
qed

lemma pollStep_permanent:
  assumes "now - start < tm * 60 * 1000" and "isPermanentAuthError msg"
  shows "pollStep pd cfg start tm run (now, FetchError msg)
         = Inr (\<lparr>status = Failed, durationMs = None, errorMessage = Some authErrorMessage,
                 phases = PollState.phases (pstate run),
                 phaseTimings =
                   Some (calculatePhaseDurations pd (PollState.phaseTimings (pstate run))
                           (PollState.phases (pstate run)) None),
                 bundleVersion = None, deploymentUrl = None\<rparr>,
                run\<lparr>written := written run @ [ErrorAuthorization],
                    fetchCalls := Suc (fetchCalls run)\<rparr>)"
  using assms by (simp add: pollStep_def Let_def)

lemma pollStep_transient:
  assumes "isTransientTick start tm tick"
  shows "pollStep pd cfg start tm run tick
         = Inl (run\<lparr>written := written run @ [WarnFetchFailed (fetchErrorMessage (snd tick))],
                    fetchCalls := Suc (fetchCalls run),
                    sleeps := sleeps run @ [RequiredPollingConfig.pollDelayMs cfg]\<rparr>)"
  using assms
  by (cases "snd tick")
     (simp_all add: pollStep_def Let_def isTransientTick_def fetchErrorMessage_def)

lemma pollLoop_transient_prefix:
  assumes "\<forall>t \<in> set ts. isTransientTick start tm t"
  shows "pollLoop pd cfg start tm run (ts @ rest)
         = pollLoop pd cfg start tm
             (run\<lparr>written := written run
                              @ map (\<lambda>t. WarnFetchFailed (fetchErrorMessage (snd t))) ts,
                  fetchCalls := fetchCalls run + length ts,
                  sleeps := sleeps run
                            @ replicate (length ts) (RequiredPollingConfig.pollDelayMs cfg)\<rparr>)
             rest"
  using assms
proof (induction ts arbitrary: run)
  case Nil
  show ?case by simp
next
  case (Cons t ts)
  from Cons.prems have t: "isTransientTick start tm t"
    and ts: "\<forall>t \<in> set ts. isTransientTick start tm t" by auto
  show ?case
    by (simp add: pollStep_transient[OF t] Cons.IH[OF ts] replicate_app_Cons_same)
qed

section \<open>The state after one entry, and the invariant\<close>

lemma observePhase_state:
  "fst (observePhase pd sp st log m) =
     (case (case details m of None \<Rightarrow> None | Some d \<Rightarrow> phase d) of
        None \<Rightarrow> st
      | Some name \<Rightarrow>
          if name = [] \<or> name \<in> seenPhases st then st
          else acceptPhase st name (orElse (md_timestamp m) (timestamp log)))"
  by (simp add: observePhase_def acceptPhase_def Let_def split: option.splits)

lemma processLog_state:
  "fst (processLog pd v st log) =
     (if getLogId log \<in> seenLogIds st then st
      else if toLowerCase (level log) = ''error''
        then st\<lparr>seenLogIds := insert (getLogId log) (seenLogIds st)\<rparr>
      else
        (case phaseOf log of
           None \<Rightarrow> st\<lparr>seenLogIds := insert (getLogId log) (seenLogIds st)\<rparr>
         | Some name \<Rightarrow>
             if name = [] \<or> name \<in> seenPhases st
             then st\<lparr>seenLogIds := insert (getLogId log) (seenLogIds st)\<rparr>
             else acceptPhase (st\<lparr>seenLogIds := insert (getLogId log) (seenLogIds st)\<rparr>)
                    name (instantOf log)))"
  by (simp add: processLog_def Let_def case_prod_beta observePhase_state phaseOf_def
      instantOf_def truthy_def split: option.splits)

lemma wellFormed_initialState: "wellFormed initialState"
  by (simp add: wellFormed_def initialState_def)

lemma processLog_wellFormed:
  "wellFormed st \<Longrightarrow> wellFormed (fst (processLog pd v st log))"
  by (auto simp: processLog_state wellFormed_def acceptPhase_def list_all_iff split: option.splits)

lemma processLog_keeps_phase:
  "q \<in> seenPhases st \<Longrightarrow>
     q \<in> seenPhases (fst (processLog pd v st log))
     \<and> PollState.phaseTimings (fst (processLog pd v st log)) q = PollState.phaseTimings st q"
  by (auto simp: processLog_state acceptPhase_def split: option.splits)

lemma processLog_phases_extend:
  "\<exists>ext. PollState.phases (fst (processLog pd v st log)) = PollState.phases st @ ext"
  by (auto simp: processLog_state acceptPhase_def split: option.splits)

lemma processLogs_wellFormed:
  "wellFormed st \<Longrightarrow> wellFormed (fst (processLogs pd v st logs))"
proof (induction logs arbitrary: st)
  case Nil
  then show ?case by simp
next
  case (Cons log logs)
  from processLog_wellFormed[OF Cons.prems, of pd v log] Cons.IH[of "fst (processLog pd v st log)"]
  show ?case
    by (cases "processLog pd v st log") (auto split: option.splits prod.splits)
qed

lemma processLogs_keeps_phase:
  "q \<in> seenPhases st \<Longrightarrow>
     q \<in> seenPhases (fst (processLogs pd v st logs))
     \<and> PollState.phaseTimings (fst (processLogs pd v st logs)) q = PollState.phaseTimings st q"
proof (induction logs arbitrary: st)
  case Nil
  then show ?case by simp
next
  case (Cons log logs)
  from processLog_keeps_phase[OF Cons.prems, of pd v log]
    Cons.IH[of "fst (processLog pd v st log)"]
  show ?case
    by (cases "processLog pd v st log") (auto split: option.splits prod.splits)
qed

lemma processLogs_phases_extend:
  "\<exists>ext. PollState.phases (fst (processLogs pd v st logs)) = PollState.phases st @ ext"
proof (induction logs arbitrary: st)
  case Nil
  then show ?case by simp
next
  case (Cons log logs)
  from processLog_phases_extend[of pd v st log]
    Cons.IH[of "fst (processLog pd v st log)"]
  show ?case
    by (cases "processLog pd v st log") (auto split: option.splits prod.splits)
qed

text \<open>One iteration changes the poller's state only through the batch it processes.\<close>

lemma pollStep_pstate:
  "\<exists>logs. pstate (sessionOf (pollStep pd cfg start tm run tick))
           = fst (processLogs pd (RequiredPollingConfig.logVerbosity cfg) (pstate run) logs)"
proof (cases "snd tick")
  case (FetchError msg)
  then have "pstate (sessionOf (pollStep pd cfg start tm run tick))
             = fst (processLogs pd (RequiredPollingConfig.logVerbosity cfg) (pstate run) [])"
    by (simp add: pollStep_def sessionOf_def Let_def)
  then show ?thesis by blast
next
  case (Logs logs)
  show ?thesis
  proof (cases "fst tick - start \<ge> tm * 60 * 1000")
    case True
    then have "pstate (sessionOf (pollStep pd cfg start tm run tick))
               = fst (processLogs pd (RequiredPollingConfig.logVerbosity cfg) (pstate run) [])"
      by (simp add: pollStep_def sessionOf_def Let_def)
    then show ?thesis by blast
  next
    case False
    with Logs have "pstate (sessionOf (pollStep pd cfg start tm run tick))
               = fst (processLogs pd (RequiredPollingConfig.logVerbosity cfg) (pstate run) logs)"
      by (simp add: pollStep_def sessionOf_def Let_def split: prod.splits option.splits)
    then show ?thesis by blast
  qed
qed

lemma pollLoop_step:
  "sessionOf (pollLoop pd cfg start tm run (tick # rest))
   = (case pollStep pd cfg start tm run tick of
        Inl run1 \<Rightarrow> sessionOf (pollLoop pd cfg start tm run1 rest)
      | Inr res \<Rightarrow> sessionOf (pollStep pd cfg start tm run tick))"
  by (simp add: sessionOf_def split: sum.splits)

lemma pollLoop_wellFormed:
  "wellFormed (pstate run) \<Longrightarrow>
     wellFormed (pstate (sessionOf (pollLoop pd cfg start tm run script)))"
proof (induction script arbitrary: run)
  case Nil
  then show ?case by (simp add: sessionOf_def)
next
  case (Cons tick rest)
  have w: "wellFormed (pstate (sessionOf (pollStep pd cfg start tm run tick)))"
    using pollStep_pstate[of pd cfg start tm run tick] Cons.prems processLogs_wellFormed
    by auto
  show ?case
  proof (cases "pollStep pd cfg start tm run tick")
    case (Inl run1)
    with w have "wellFormed (pstate run1)" by (simp add: sessionOf_def)
    from Cons.IH[OF this] Inl show ?thesis by simp
  next
    case (Inr res)
    with w show ?thesis by (simp add: sessionOf_def)
  qed
qed

lemma pollLoop_keeps_phase:
  "q \<in> seenPhases (pstate run) \<Longrightarrow>
     q \<in> seenPhases (pstate (sessionOf (pollLoop pd cfg start tm run script)))
     \<and> PollState.phaseTimings (pstate (sessionOf (pollLoop pd cfg start tm run script))) q
       = PollState.phaseTimings (pstate run) q"
proof (induction script arbitrary: run)
  case Nil
  then show ?case by (simp add: sessionOf_def)
next
  case (Cons tick rest)
  have k: "q \<in> seenPhases (pstate (sessionOf (pollStep pd cfg start tm run tick)))
           \<and> PollState.phaseTimings (pstate (sessionOf (pollStep pd cfg start tm run tick))) q
             = PollState.phaseTimings (pstate run) q"
    using pollStep_pstate[of pd cfg start tm run tick] Cons.prems processLogs_keeps_phase
    by auto
  show ?case
  proof (cases "pollStep pd cfg start tm run tick")
    case (Inl run1)
    with k have "q \<in> seenPhases (pstate run1)"
      and "PollState.phaseTimings (pstate run1) q = PollState.phaseTimings (pstate run) q"
      by (simp_all add: sessionOf_def)
    with Cons.IH[of run1] Inl show ?thesis by simp
  next
    case (Inr res)
    with k show ?thesis by (simp add: sessionOf_def)
  qed
qed

lemma pollLoop_phases_extend:
  "\<exists>ext. PollState.phases (pstate (sessionOf (pollLoop pd cfg start tm run script)))
          = PollState.phases (pstate run) @ ext"
proof (induction script arbitrary: run)
  case Nil
  then show ?case by (simp add: sessionOf_def)
next
  case (Cons tick rest)
  have e: "\<exists>ext. PollState.phases (pstate (sessionOf (pollStep pd cfg start tm run tick)))
                 = PollState.phases (pstate run) @ ext"
    using pollStep_pstate[of pd cfg start tm run tick] processLogs_phases_extend
    by auto
  show ?case
  proof (cases "pollStep pd cfg start tm run tick")
    case (Inl run1)
    with e obtain ext1 where "PollState.phases (pstate run1) = PollState.phases (pstate run) @ ext1"
      by (auto simp: sessionOf_def)
    moreover from Cons.IH[of run1] obtain ext2 where
      "PollState.phases (pstate (sessionOf (pollLoop pd cfg start tm run1 rest)))
       = PollState.phases (pstate run1) @ ext2" by blast
    ultimately show ?thesis using Inl by simp
  next
    case (Inr res)
    with e show ?thesis by (simp add: sessionOf_def)
  qed
qed

section \<open>The last phase at a timeout\<close>

lemma calcLoop_last_unset:
  "pt l = Some t \<Longrightarrow> PhaseTiming.durationMs t = None \<Longrightarrow>
     calcLoop pd pt None (ps @ [l]) result l = Some t"
  by (induction ps arbitrary: result) (simp_all add: calcIteration_def Let_def split: option.splits)

lemma last_phase_unset:
  assumes "wellFormed st" and "PollState.phases st \<noteq> []"
  shows "\<exists>ts. calculatePhaseDurations pd (PollState.phaseTimings st) (PollState.phases st) None
               (last (PollState.phases st))
             = Some \<lparr>PhaseTiming.startedAt = ts, PhaseTiming.durationMs = None\<rparr>"
proof -
  from assms(2) obtain ps l where pl: "PollState.phases st = ps @ [l]"
    by (cases "PollState.phases st" rule: rev_cases) auto
  from assms(1) pl obtain t where t: "PollState.phaseTimings st l = Some t"
    and d: "PhaseTiming.durationMs t = None"
    by (auto simp: wellFormed_def list_all_iff split: option.splits)
  have "calculatePhaseDurations pd (PollState.phaseTimings st) (PollState.phases st) None l = Some t"
    using calcLoop_last_unset[where pt = "PollState.phaseTimings st" and ps = ps, OF t d] pl
    by (simp add: calculatePhaseDurations_def)
  moreover have "t = \<lparr>PhaseTiming.startedAt = startedAt t, PhaseTiming.durationMs = None\<rparr>"
    using d by (cases t) simp
  ultimately show ?thesis using pl by (metis last_snoc)
qed

lemma pollStep_timeout:
  assumes "tm * 60 * 1000 \<le> now - start"
  shows "pollStep pd cfg start tm run (now, fetched)
         = Inr (\<lparr>status = Timeout, durationMs = None, errorMessage = None,
                 phases = PollState.phases (pstate run),
                 phaseTimings =
                   Some (calculatePhaseDurations pd (PollState.phaseTimings (pstate run))
                           (PollState.phases (pstate run)) None),
                 bundleVersion = None, deploymentUrl = None\<rparr>,
                run\<lparr>written := written run @ [ErrorTimeout tm (PollState.phases (pstate run))]\<rparr>)"
  using assms by (simp add: pollStep_def Let_def)

section \<open>Phase transitions followed by completion\<close>

lemma processLog_complete:
  assumes "getLogId log \<notin> seenLogIds st" and "isCompleteEntry log"
  shows "\<exists>out. processLog pd v st log
           = (st\<lparr>seenLogIds := insert (getLogId log) (seenLogIds st)\<rparr>, out,
              Some (completionOf log (PollState.phases st)
                      (calculatePhaseDurations pd (PollState.phaseTimings st)
                         (PollState.phases st) (Some (instantOf log)))))"
proof -
  from assms(2) obtain m where m: "metadata log = Some m"
    and a: "action m = Some ''pipeline_complete''"
    and l: "toLowerCase (level log) \<noteq> ''error''"
    by (auto simp: isCompleteEntry_def metadataAction_def split: option.splits)
  show ?thesis
    using assms(1) m a l
    by (simp add: processLog_def Let_def onPipelineComplete_def completionOf_def instantOf_def
        truthy_def)
qed

lemma phaseOf_action:
  "phaseOf log = Some name \<Longrightarrow> metadataAction log = Some ''report_phase_change_success''"
  by (auto simp: phaseOf_def metadataAction_def split: option.splits if_splits)

lemma processLog_phase_entry:
  assumes "getLogId log \<notin> seenLogIds st" and "toLowerCase (level log) \<noteq> ''error''"
    and "phaseOf log = Some name" and "name \<noteq> []" and "name \<notin> seenPhases st"
  shows "\<exists>out. processLog pd v st log
           = (acceptPhase (st\<lparr>seenLogIds := insert (getLogId log) (seenLogIds st)\<rparr>)
                name (instantOf log), out, None)"
proof -
  have "\<not> isTerminalEntry log"
    using assms(2) phaseOf_action[OF assms(3)] by (simp add: isTerminalEntry_def)
  then have "snd (snd (processLog pd v st log)) = None"
    using processLog_returns_iff[of pd v st log] by simp
  moreover have "fst (processLog pd v st log)
                 = acceptPhase (st\<lparr>seenLogIds := insert (getLogId log) (seenLogIds st)\<rparr>)
                     name (instantOf log)"
    using assms by (simp add: processLog_state)
  ultimately show ?thesis
    by (cases "processLog pd v st log") auto
qed

lemma processLogs_phase_entries:
  assumes "map phaseOf es = map Some names"
    and "\<forall>e \<in> set es. toLowerCase (level e) \<noteq> ''error''"
    and "distinct (map getLogId es)"
    and "getLogId ` set es \<inter> seenLogIds st = {}"
    and "distinct names" and "[] \<notin> set names"
    and "set names \<inter> seenPhases st = {}"
  shows "\<exists>out. processLogs pd v st es
           = (st\<lparr>seenLogIds := seenLogIds st \<union> getLogId ` set es,
                 seenPhases := seenPhases st \<union> set names,
                 PollState.phases := PollState.phases st @ names,
                 PollState.phaseTimings :=
                   (PollState.phaseTimings st)(names [\<mapsto>] map startTiming es)\<rparr>,
              out, None)"
  using assms
proof (induction es arbitrary: st names)
  case Nil
  then show ?case by simp
next
  case (Cons e es)
  from Cons.prems(1) obtain n ns where names: "names = n # ns"
    and n: "phaseOf e = Some n" and ns: "map phaseOf es = map Some ns"
    by (cases names) auto
  let ?st1 = "acceptPhase (st\<lparr>seenLogIds := insert (getLogId e) (seenLogIds st)\<rparr>)
                n (instantOf e)"
  from Cons.prems names n
  obtain out1 where p: "processLog pd v st e = (?st1, out1, None)"
    using processLog_phase_entry[of e st n pd v] by auto
  have "\<exists>out. processLogs pd v ?st1 es
           = (?st1\<lparr>seenLogIds := seenLogIds ?st1 \<union> getLogId ` set es,
                   seenPhases := seenPhases ?st1 \<union> set ns,
                   PollState.phases := PollState.phases ?st1 @ ns,
                   PollState.phaseTimings :=
                     (PollState.phaseTimings ?st1)(ns [\<mapsto>] map startTiming es)\<rparr>,
              out, None)"
    using Cons.prems names ns
    by (intro Cons.IH) (auto simp: acceptPhase_def)
  then obtain out2 where q: "processLogs pd v ?st1 es
           = (?st1\<lparr>seenLogIds := seenLogIds ?st1 \<union> getLogId ` set es,
                   seenPhases := seenPhases ?st1 \<union> set ns,
                   PollState.phases := PollState.phases ?st1 @ ns,
                   PollState.phaseTimings :=
                     (PollState.phaseTimings ?st1)(ns [\<mapsto>] map startTiming es)\<rparr>,
              out2, None)"
    by blast
  have eq: "?st1\<lparr>seenLogIds := seenLogIds ?st1 \<union> getLogId ` set es,
                   seenPhases := seenPhases ?st1 \<union> set ns,
                   PollState.phases := PollState.phases ?st1 @ ns,
                   PollState.phaseTimings :=
                     (PollState.phaseTimings ?st1)(ns [\<mapsto>] map startTiming es)\<rparr>
            = st\<lparr>seenLogIds := seenLogIds st \<union> getLogId ` set (e # es),
                 seenPhases := seenPhases st \<union> set names,
                 PollState.phases := PollState.phases st @ names,
                 PollState.phaseTimings :=
                   (PollState.phaseTimings st)(names [\<mapsto>] map startTiming (e # es))\<rparr>"
    by (simp add: acceptPhase_def startTiming_def names)
  have "processLogs pd v st (e # es)
        = (?st1\<lparr>seenLogIds := seenLogIds ?st1 \<union> getLogId ` set es,
                   seenPhases := seenPhases ?st1 \<union> set ns,
                   PollState.phases := PollState.phases ?st1 @ ns,
                   PollState.phaseTimings :=
                     (PollState.phaseTimings ?st1)(ns [\<mapsto>] map startTiming es)\<rparr>,
           out1 @ out2, None)"
    by (simp add: p q)
  then show ?case
    unfolding eq by blast
qed

lemma getLogId_last:
  assumes "metadataAction log = Some a" and "a \<noteq> []"
  shows "last (getLogId log) = last a"
  using assms by (simp add: getLogId_alt orElse_def)

lemma phase_id_not_complete_id:
  assumes "phaseOf e = Some name" and "metadataAction c = Some ''pipeline_complete''"
  shows "getLogId e \<noteq> getLogId c"
proof
  assume "getLogId e = getLogId c"
  then have "last (getLogId e) = last (getLogId c)" by simp
  then show False
    using getLogId_last[OF phaseOf_action[OF assms(1)]] getLogId_last[OF assms(2)] by simp
qed

section \<open>Duration inference\<close>

lemma calcIteration_other:
  "q \<noteq> p \<Longrightarrow> calcIteration pd pt c p rest result q = result q"
  by (simp add: calcIteration_def Let_def split: option.splits list.splits)

lemma calcLoop_untouched:
  "p \<notin> set ps \<Longrightarrow> calcLoop pd pt c ps result p = result p"
  by (induction ps arbitrary: result) (simp_all add: calcIteration_other)

lemma calcIteration_next:
  assumes "pt p = Some \<lparr>PhaseTiming.startedAt = s, PhaseTiming.durationMs = None\<rparr>"
    and "pd s = Some t0"
    and "pt n = Some nt" and "pd (startedAt nt) = Some t1"
  shows "calcIteration pd pt c p (n # rest) result p
         = Some \<lparr>PhaseTiming.startedAt = s, PhaseTiming.durationMs = Some (t1 - t0)\<rparr>"
  using assms by (simp add: calcIteration_def Let_def)

lemma calcIteration_last:
  assumes "pt p = Some \<lparr>PhaseTiming.startedAt = s, PhaseTiming.durationMs = None\<rparr>"
    and "pd s = Some t0"
    and "completedAt \<noteq> []" and "pd completedAt = Some t1"
  shows "calcIteration pd pt (Some completedAt) p [] result p
         = Some \<lparr>PhaseTiming.startedAt = s, PhaseTiming.durationMs = Some (t1 - t0)\<rparr>"
  using assms by (simp add: calcIteration_def Let_def)

lemma calcLoop_at_next:
  assumes "distinct ps" and "Suc i < length ps"
    and "pt (ps ! i) = Some \<lparr>PhaseTiming.startedAt = s, PhaseTiming.durationMs = None\<rparr>"
    and "pd s = Some t0"
    and "pt (ps ! Suc i) = Some nt" and "pd (startedAt nt) = Some t1"
  shows "calcLoop pd pt c ps result (ps ! i)
         = Some \<lparr>PhaseTiming.startedAt = s, PhaseTiming.durationMs = Some (t1 - t0)\<rparr>"
  using assms
proof (induction ps arbitrary: i result)
  case Nil
  then show ?case by simp
next
  case (Cons p rest)
  show ?case
  proof (cases i)
    case 0
    with Cons.prems obtain n rest' where r: "rest = n # rest'"
      by (cases rest) auto
    from Cons.prems 0 r have notin: "p \<notin> set rest"
      and tp: "pt p = Some \<lparr>PhaseTiming.startedAt = s, PhaseTiming.durationMs = None\<rparr>"
      and tn: "pt n = Some nt"
      by simp_all
    show ?thesis
      using calcLoop_untouched[OF notin]
        calcIteration_next[where pt = pt and p = p and pd = pd and n = n,
          OF tp Cons.prems(4) tn Cons.prems(6)]
      by (simp add: 0 r)
  next
    case (Suc j)
    from Cons.prems Suc have d: "distinct rest" and l: "Suc j < length rest"
      and tj: "pt (rest ! j) = Some \<lparr>PhaseTiming.startedAt = s, PhaseTiming.durationMs = None\<rparr>"
      and tn: "pt (rest ! Suc j) = Some nt"
      by simp_all
    from Cons.IH[where i = j, OF d l tj Cons.prems(4) tn Cons.prems(6)] Suc show ?thesis by simp
  qed
qed

lemma calcLoop_at_last:
  assumes "distinct ps" and "Suc i = length ps"
    and "pt (ps ! i) = Some \<lparr>PhaseTiming.startedAt = s, PhaseTiming.durationMs = None\<rparr>"
    and "pd s = Some t0"
    and "completedAt \<noteq> []" and "pd completedAt = Some t1"
  shows "calcLoop pd pt (Some completedAt) ps result (ps ! i)
         = Some \<lparr>PhaseTiming.startedAt = s, PhaseTiming.durationMs = Some (t1 - t0)\<rparr>"
  using assms
proof (induction ps arbitrary: i result)
  case Nil
  then show ?case by simp
next
  case (Cons p rest)
  show ?case
  proof (cases i)
    case 0
    with Cons.prems have r: "rest = []"
      and tp: "pt p = Some \<lparr>PhaseTiming.startedAt = s, PhaseTiming.durationMs = None\<rparr>"
      by simp_all
    show ?thesis
      using calcIteration_last[where pt = pt and p = p and pd = pd, OF tp Cons.prems(4,5,6)]
      by (simp add: 0 r)
  next
    case (Suc j)
    from Cons.prems(1) have d: "distinct rest" by simp
    from Cons.prems(2) Suc have l: "Suc j = length rest" by simp
    from Cons.prems(3) Suc
    have tj: "pt (rest ! j) = Some \<lparr>PhaseTiming.startedAt = s, PhaseTiming.durationMs = None\<rparr>"
      by simp
    from Cons.IH[where i = j, OF d l tj Cons.prems(4,5,6)] Suc show ?thesis by simp
  qed
qed

section \<open>Verbosity and decisions\<close>

lemma processLog_state_verbosity:
  "fst (processLog pd v st log) = fst (processLog pd v' st log)"
  by (simp add: processLog_state)

lemma processLog_result_verbosity:
  "snd (snd (processLog pd v st log)) = snd (snd (processLog pd v' st log))"
  by (simp add: processLog_def Let_def case_prod_beta onErrorLevel_def onPipelineComplete_def
      onPipelineFailed_def observePhase_state split: option.splits)

lemma processLogs_verbosity:
  "fst (processLogs pd v st logs) = fst (processLogs pd v' st logs)
   \<and> snd (snd (processLogs pd v st logs)) = snd (snd (processLogs pd v' st logs))"
proof (induction logs arbitrary: st)
  case Nil
  show ?case by simp
next
  case (Cons log logs)
  obtain s1 o1 r1 where p: "processLog pd v st log = (s1, o1, r1)"
    by (cases "processLog pd v st log") auto
  obtain s2 o2 r2 where q: "processLog pd v' st log = (s2, o2, r2)"
    by (cases "processLog pd v' st log") auto
  have s: "s2 = s1"
    using processLog_state_verbosity[of pd v st log v'] p q by simp
  have r: "r2 = r1"
    using processLog_result_verbosity[of pd v st log v'] p q by simp
  show ?case
  proof (cases r1)
    case None
    with p q s r Cons.IH[of s1] show ?thesis
      by (simp add: case_prod_beta)
  next
    case (Some res)
    with p q s r show ?thesis by simp
  qed
qed

lemma withoutOutput_eq:
  "(withoutOutput run = withoutOutput run')
   = (pstate run = pstate run' \<and> fetchCalls run = fetchCalls run' \<and> sleeps run = sleeps run')"
  by (cases run; cases run') (simp add: withoutOutput_def)

lemma withoutOutput_simps:
  "pstate (withoutOutput run) = pstate run"
  "fetchCalls (withoutOutput run) = fetchCalls run"
  "sleeps (withoutOutput run) = sleeps run"
  "written (withoutOutput run) = []"
  by (simp_all add: withoutOutput_def)

lemma pollStep_verbosity:
  assumes "withoutOutput run = withoutOutput run'"
  shows "decisionOf (pollStep pd cfg start tm run tick)
         = decisionOf (pollStep pd (cfg\<lparr>RequiredPollingConfig.logVerbosity := v'\<rparr>) start tm run' tick)"
proof -
  from assms have e: "pstate run = pstate run'" "fetchCalls run = fetchCalls run'"
    "sleeps run = sleeps run'"
    by (simp_all add: withoutOutput_eq)
  show ?thesis
  proof (cases "snd tick")
    case (FetchError msg)
    then show ?thesis
      using e by (simp add: pollStep_def Let_def decisionOf_def withoutOutput_eq)
  next
    case (Logs logs)
    let ?v = "RequiredPollingConfig.logVerbosity cfg"
    obtain s1 o1 r1 where p: "processLogs pd ?v (pstate run) logs = (s1, o1, r1)"
      by (cases "processLogs pd ?v (pstate run) logs") auto
    obtain s2 o2 r2 where q: "processLogs pd v' (pstate run) logs = (s2, o2, r2)"
      by (cases "processLogs pd v' (pstate run) logs") auto
    have "s2 = s1" and "r2 = r1"
      using processLogs_verbosity[of pd ?v "pstate run" logs v'] p q by simp_all
    with p q Logs e show ?thesis
      by (cases r1) (simp_all add: pollStep_def Let_def decisionOf_def withoutOutput_eq)
  qed
qed

lemma decisionOf_Inl:
  "decisionOf x = decisionOf y \<Longrightarrow> x = Inl run \<Longrightarrow>
     \<exists>run'. y = Inl run' \<and> withoutOutput run = withoutOutput run'"
  by (cases y) (simp_all add: decisionOf_def)

lemma decisionOf_Inr:
  "decisionOf x = decisionOf y \<Longrightarrow> x = Inr res \<Longrightarrow> \<exists>res'. y = Inr res'"
  by (cases y) (simp_all add: decisionOf_def)

lemma pollLoop_verbosity:
  assumes "withoutOutput run = withoutOutput run'"
  shows "decisionOf (pollLoop pd cfg start tm run script)
         = decisionOf (pollLoop pd (cfg\<lparr>RequiredPollingConfig.logVerbosity := v'\<rparr>) start tm run'
                         script)"
  using assms
proof (induction script arbitrary: run run')
  case Nil
  then show ?case by (simp add: decisionOf_def)
next
  case (Cons tick rest)
  let ?cfg' = "cfg\<lparr>RequiredPollingConfig.logVerbosity := v'\<rparr>"
  note step = pollStep_verbosity[OF Cons.prems, of pd cfg start tm tick v']
  show ?case
  proof (cases "pollStep pd cfg start tm run tick")
    case (Inl run1)
    from decisionOf_Inl[OF step Inl] obtain run1' where
      i: "pollStep pd ?cfg' start tm run' tick = Inl run1'"
      and w: "withoutOutput run1 = withoutOutput run1'" by blast
    from Cons.IH[OF w] Inl i show ?thesis by simp
  next
    case (Inr res)
    from decisionOf_Inr[OF step Inr] obtain res' where
      i: "pollStep pd ?cfg' start tm run' tick = Inr res'" by blast
    with step Inr show ?thesis by simp
  qed
qed

lemma mergeConfig_verbosity:
  "mergeConfig d (config\<lparr>PollingConfig.logVerbosity := v2\<rparr>)
   = (mergeConfig d (config\<lparr>PollingConfig.logVerbosity := v1\<rparr>))
       \<lparr>RequiredPollingConfig.logVerbosity :=
          (case v2 of None \<Rightarrow> RequiredPollingConfig.logVerbosity d | Some v \<Rightarrow> v)\<rparr>"
  by (simp add: mergeConfig_def)

lemma decisionOf_eq:
  assumes "decisionOf x = decisionOf y"
  shows "map_sum (\<lambda>run. ()) fst x = map_sum (\<lambda>run. ()) fst y
         \<and> pstate (sessionOf x) = pstate (sessionOf y)
         \<and> fetchCalls (sessionOf x) = fetchCalls (sessionOf y)
         \<and> sleeps (sessionOf x) = sleeps (sessionOf y)"
  using assms
  by (cases x; cases y) (auto simp: decisionOf_def sessionOf_def withoutOutput_eq)

lemma verbosity_changes_output:
  "written (sessionOf (pollForCompletion exampleParseDate 0
                         [(5, Logs [examplePhaseLog ''2024-01-01T00:00:00.000Z'' ''sync'',
                                    exampleCompleteLog ''2024-01-01T00:00:02.000Z''])]
                         1 (exampleConfig\<lparr>PollingConfig.logVerbosity := Some LvNone\<rparr>)))
   \<noteq> written (sessionOf (pollForCompletion exampleParseDate 0
                         [(5, Logs [examplePhaseLog ''2024-01-01T00:00:00.000Z'' ''sync'',
                                    exampleCompleteLog ''2024-01-01T00:00:02.000Z''])]
                         1 (exampleConfig\<lparr>PollingConfig.logVerbosity := Some LvVerbose\<rparr>)))"
  by code_simp

section \<open>Error-level entries fail the session (C1)\<close>

text \<open>
  C1, as stated, fails on the message: for an error-level entry whose \<^verbatim>\<open>metadata.error\<close> is an
  object and whose \<^verbatim>\<open>metadata.message\<close> is a string, the result carries the entry's own
  message, not \<^verbatim>\<open>metadata.message\<close>.
\<close>

theorem error_level_fails_counterexample:
  "map_option status
     (snd (snd (processLog exampleParseDate LvNormal initialState exampleErrorLogStructured)))
   = Some Failed
   \<and> map_option errorMessage
       (snd (snd (processLog exampleParseDate LvNormal initialState exampleErrorLogStructured)))
     = Some (Some ''step exited with code 1'')
   \<and> claimedErrorMessage exampleErrorLogStructured = ''bundle validation failed''
   \<and> map_option errorMessage
       (snd (snd (processLog exampleParseDate LvNormal initialState exampleErrorLogStructured)))
     \<noteq> Some (Some (claimedErrorMessage exampleErrorLogStructured))"
  by code_simp

text \<open>
  C1, amended. When the entries before it in the batch have been processed without a
  return, every new entry whose level is \<^verbatim>\<open>"error"\<close> up to case ends the session with a result
  of status \<open>Failed\<close>, whatever its \<^verbatim>\<open>metadata.action\<close> is, at that fetch and without a sleep.
  The failure message is \<^verbatim>\<open>metadata.error\<close>, else \<^verbatim>\<open>metadata.message\<close>, else the entry's own
  message, in that order, whenever \<^verbatim>\<open>metadata.error\<close> is absent, \<^verbatim>\<open>null\<close> or a string; when
  \<^verbatim>\<open>metadata.error\<close> is any other value, it is the entry's own message.
\<close>

theorem error_level_fails:
  assumes "processLogs pd (RequiredPollingConfig.logVerbosity cfg) (pstate run) pre
           = (st1, out1, None)"
    and "getLogId log \<notin> seenLogIds st1"
    and "toLowerCase (level log) = ''error''"
    and "now - start < tm * 60 * 1000"
  shows "\<exists>r run1.
           pollLoop pd cfg start tm run ((now, Logs (pre @ log # post)) # rest) = Inr (r, run1)
           \<and> status r = Failed
           \<and> errorMessage r
               = Some (if errorIsStringOrMissing log then claimedErrorMessage log
                       else message log)
           \<and> PollingResult.phases r = PollState.phases st1
           \<and> fetchCalls run1 = Suc (fetchCalls run)
           \<and> sleeps run1 = sleeps run"
proof -
  let ?v = "RequiredPollingConfig.logVerbosity cfg"
  from processLog_error_level[OF assms(2,3), of pd ?v]
  obtain out2 where p: "processLog pd ?v st1 log
      = (st1\<lparr>seenLogIds := insert (getLogId log) (seenLogIds st1)\<rparr>, out2,
         Some \<lparr>status = Failed, durationMs = None,
               errorMessage = Some (errorMessageOf log),
               phases = PollState.phases st1,
               phaseTimings =
                 Some (calculatePhaseDurations pd (PollState.phaseTimings st1)
                         (PollState.phases st1) None),
               bundleVersion = None, deploymentUrl = None\<rparr>)"
    by blast
  from pollStep_logs_return[OF processLogs_first_return[OF assms(1) p] assms(4)]
  show ?thesis
    by (simp add: errorMessageOf_cases)
qed

theorem error_level_fails_witness:
  "snd (snd (processLogs exampleParseDate LvNormal initialState
               [examplePhaseLog ''2024-01-01T00:00:00.000Z'' ''build''])) = None
   \<and> getLogId exampleErrorLog
       \<notin> seenLogIds (fst (processLogs exampleParseDate LvNormal initialState
                              [examplePhaseLog ''2024-01-01T00:00:00.000Z'' ''build'']))
   \<and> toLowerCase (level exampleErrorLog) = ''error''
   \<and> metadataAction exampleErrorLog = Some ''pipeline_complete''
   \<and> (5 :: int) - 0 < 1 * 60 * 1000
   \<and> (case pollLoop exampleParseDate DEFAULT_POLLING_CONFIG 0 1 exampleRun
               [(5, Logs [examplePhaseLog ''2024-01-01T00:00:00.000Z'' ''build'',
                          exampleErrorLog]),
                (2005, Logs [])] of
         Inl run1 \<Rightarrow> False
       | Inr (r, run1) \<Rightarrow>
           status r = Failed \<and> errorMessage r = Some ''policy compile error''
           \<and> PollingResult.phases r = [''build''] \<and> fetchCalls run1 = 1)"
proof -
  let ?ph = "examplePhaseLog ''2024-01-01T00:00:00.000Z'' ''build''"
  let ?X = "processLogs exampleParseDate LvNormal initialState [?ph]"
  have v: "RequiredPollingConfig.logVerbosity DEFAULT_POLLING_CONFIG = LvNormal"
    by (simp add: DEFAULT_POLLING_CONFIG_def)
  have s: "pstate exampleRun = initialState" "fetchCalls exampleRun = 0"
    by (simp_all add: exampleRun_def)
  have h1: "snd (snd ?X) = None" by code_simp
  then have h1': "processLogs exampleParseDate
                    (RequiredPollingConfig.logVerbosity DEFAULT_POLLING_CONFIG)
                    (pstate exampleRun) [?ph] = (fst ?X, fst (snd ?X), None)"
    by (simp add: v s prod_eq_iff)
  have h2: "getLogId exampleErrorLog \<notin> seenLogIds (fst ?X)" by code_simp
  have h3: "toLowerCase (level exampleErrorLog) = ''error''" by code_simp
  have h3': "metadataAction exampleErrorLog = Some ''pipeline_complete''" by code_simp
  have h4: "(5 :: int) - 0 < 1 * 60 * 1000" by simp
  have c1: "errorIsStringOrMissing exampleErrorLog" by code_simp
  have c2: "claimedErrorMessage exampleErrorLog = ''policy compile error''" by code_simp
  have c3: "PollState.phases (fst ?X) = [''build'']" by code_simp
  from error_level_fails[OF h1' h2 h3 h4, of "[]" "[(2005, Logs [])]"]
  obtain r run1 where
    "pollLoop exampleParseDate DEFAULT_POLLING_CONFIG 0 1 exampleRun
       [(5, Logs [?ph, exampleErrorLog]), (2005, Logs [])] = Inr (r, run1)"
    and "status r = Failed" and "errorMessage r = Some ''policy compile error''"
    and "PollingResult.phases r = [''build'']" and "fetchCalls run1 = 1"
    using c1 c2 c3 s by auto
  then have "(case pollLoop exampleParseDate DEFAULT_POLLING_CONFIG 0 1 exampleRun
               [(5, Logs [?ph, exampleErrorLog]), (2005, Logs [])] of
         Inl run1 \<Rightarrow> False
       | Inr (r, run1) \<Rightarrow>
           status r = Failed \<and> errorMessage r = Some ''policy compile error''
           \<and> PollingResult.phases r = [''build''] \<and> fetchCalls run1 = 1)"
    by simp
  with h1 h2 h3 h3' h4 show ?thesis by blast
qed

section \<open>Deduplication (C2)\<close>

text \<open>
  C2. Deduplication is idempotent. Take any session and any script in which an entry \<open>e\<close> is
  delivered in some batch and an entry \<open>d\<close> with the same timestamp, message and metadata
  action is delivered again in a later batch. Then the session runs exactly as on the script
  without \<open>d\<close>: the same outcome (returned result, or still polling), the same phase list,
  the same seen-set, the same lines and the same number of fetches. Moreover the seen-set of
  a session only grows along any script: no identity is ever unmarked.
\<close>

theorem dedup_idempotent:
  assumes "e \<in> set batch"
    and "timestamp d = timestamp e"
    and "message d = message e"
    and "metadataAction d = metadataAction e"
  shows "pollLoop pd cfg start tm run
           (pre @ (n1, Logs batch) # mid @ (n2, Logs (xs @ d # ys)) # post)
         = pollLoop pd cfg start tm run
             (pre @ (n1, Logs batch) # mid @ (n2, Logs (xs @ ys)) # post)
       \<and> seenLogIds (pstate run)
           \<subseteq> seenLogIds (pstate (sessionOf (pollLoop pd cfg start tm run script)))"
proof -
  have id: "getLogId d = getLogId e"
    using assms(2-4) by (rule getLogId_cong)
  let ?dup = "(n2, Logs (xs @ d # ys)) # post"
  let ?nodup = "(n2, Logs (xs @ ys)) # post"
  have late: "pollLoop pd cfg start tm r2 (mid @ ?dup) = pollLoop pd cfg start tm r2 (mid @ ?nodup)"
    if seen: "getLogId d \<in> seenLogIds (pstate r2)" for r2
  proof (cases "pollLoop pd cfg start tm r2 mid")
    case (Inl r3)
    have "seenLogIds (pstate r2) \<subseteq> seenLogIds (pstate r3)"
      using pollLoop_seen_mono[of r2 pd cfg start tm mid] Inl by (simp add: sessionOf_def)
    with seen have "getLogId d \<in> seenLogIds (pstate r3)" by auto
    then show ?thesis
      by (simp add: pollLoop_append[of pd cfg start tm r2 mid] Inl pollStep_drop_duplicate)
  next
    case (Inr res)
    then show ?thesis by (simp add: pollLoop_append[of pd cfg start tm r2 mid])
  qed
  have first: "pollLoop pd cfg start tm r1 ((n1, Logs batch) # mid @ ?dup)
             = pollLoop pd cfg start tm r1 ((n1, Logs batch) # mid @ ?nodup)" for r1
  proof (cases "pollStep pd cfg start tm r1 (n1, Logs batch)")
    case (Inl r2)
    have "getLogId e \<in> seenLogIds (pstate r2)"
      using pollStep_Inl_marks[OF Inl] assms(1) by auto
    with id late[of r2] Inl show ?thesis by simp
  next
    case (Inr res)
    then show ?thesis by simp
  qed
  have "pollLoop pd cfg start tm run (pre @ (n1, Logs batch) # mid @ ?dup)
      = pollLoop pd cfg start tm run (pre @ (n1, Logs batch) # mid @ ?nodup)"
  proof (cases "pollLoop pd cfg start tm run pre")
    case (Inl r1)
    with first[of r1] show ?thesis
      by (simp add: pollLoop_append[of pd cfg start tm run pre] del: pollLoop.simps)
  next
    case (Inr res)
    then show ?thesis
      by (simp add: pollLoop_append[of pd cfg start tm run pre] del: pollLoop.simps)
  qed
  then show ?thesis
    using pollLoop_seen_mono[of run pd cfg start tm script] by simp
qed

theorem dedup_idempotent_witness:
  "examplePhaseLog ''2024-01-01T00:00:00.000Z'' ''build''
     \<in> set [examplePhaseLog ''2024-01-01T00:00:00.000Z'' ''build'']
   \<and> pollLoop exampleParseDate DEFAULT_POLLING_CONFIG 0 1 exampleRun
         [(5, Logs [examplePhaseLog ''2024-01-01T00:00:00.000Z'' ''build'']),
          (2005, Logs [examplePhaseLog ''2024-01-01T00:00:00.000Z'' ''build''])]
       = pollLoop exampleParseDate DEFAULT_POLLING_CONFIG 0 1 exampleRun
           [(5, Logs [examplePhaseLog ''2024-01-01T00:00:00.000Z'' ''build'']),
            (2005, Logs [])]
   \<and> PollState.phases (pstate (sessionOf
         (pollLoop exampleParseDate DEFAULT_POLLING_CONFIG 0 1 exampleRun
            [(5, Logs [examplePhaseLog ''2024-01-01T00:00:00.000Z'' ''build'']),
             (2005, Logs [examplePhaseLog ''2024-01-01T00:00:00.000Z'' ''build''])])))
       = [''build'']
   \<and> card (seenLogIds (pstate (sessionOf
         (pollLoop exampleParseDate DEFAULT_POLLING_CONFIG 0 1 exampleRun
            [(5, Logs [examplePhaseLog ''2024-01-01T00:00:00.000Z'' ''build'']),
             (2005, Logs [examplePhaseLog ''2024-01-01T00:00:00.000Z'' ''build''])]))))
       = 1"
proof -
  let ?e = "examplePhaseLog ''2024-01-01T00:00:00.000Z'' ''build''"
  have m: "?e \<in> set [?e]" by simp
  have eq: "pollLoop exampleParseDate DEFAULT_POLLING_CONFIG 0 1 exampleRun
              [(5, Logs [?e]), (2005, Logs [?e])]
            = pollLoop exampleParseDate DEFAULT_POLLING_CONFIG 0 1 exampleRun
                [(5, Logs [?e]), (2005, Logs [])]"
    using dedup_idempotent[OF m refl refl refl, where pre = "[]" and mid = "[]" and xs = "[]"
        and ys = "[]" and post = "[]" and ?n1.0 = 5 and ?n2.0 = 2005
        and pd = exampleParseDate and cfg = DEFAULT_POLLING_CONFIG and start = 0 and tm = 1
        and run = exampleRun and script = "[]"]
    by simp
  have ph: "PollState.phases (pstate (sessionOf
              (pollLoop exampleParseDate DEFAULT_POLLING_CONFIG 0 1 exampleRun
                 [(5, Logs [?e]), (2005, Logs [?e])]))) = [''build'']"
    by code_simp
  have cd: "card (seenLogIds (pstate (sessionOf
              (pollLoop exampleParseDate DEFAULT_POLLING_CONFIG 0 1 exampleRun
                 [(5, Logs [?e]), (2005, Logs [?e])])))) = 1"
    by code_simp
  from m eq ph cd show ?thesis by blast
qed

section \<open>Fetch errors (C3)\<close>

text \<open>
  C3. Within the deadline, a fetch error whose message contains \<^verbatim>\<open>insufficient_scope\<close> or
  \<^verbatim>\<open>Forbidden\<close> makes the poller return at once a result of status \<open>Failed\<close> with the
  remediation message, which is the text \<^verbatim>\<open>Missing 'pipeline:read' scope in trust policy. Add the
  'Read' permission in the EnforceAuth console.\<close>; the fetch count is the one of this fetch, no sleep is added, and the
  rest of the environment is not consulted. Every other fetch error is transient: a run of
  such iterations writes one warning each, sleeps the configured delay each time, leaves
  the poller's state unchanged and continues with the next iteration; a script of transient
  fetch errors alone never returns a result.
\<close>

theorem fetch_error_handling:
  "(now - start < tm * 60 * 1000 \<and> isPermanentAuthError msg \<longrightarrow>
      pollLoop pd cfg start tm run ((now, FetchError msg) # rest)
      = Inr (\<lparr>status = Failed, durationMs = None,
              errorMessage =
                Some ''Missing 'pipeline:read' scope in trust policy. Add the 'Read' permission in the EnforceAuth console.'',
              phases = PollState.phases (pstate run),
              phaseTimings =
                Some (calculatePhaseDurations pd (PollState.phaseTimings (pstate run))
                        (PollState.phases (pstate run)) None),
              bundleVersion = None, deploymentUrl = None\<rparr>,
             run\<lparr>written := written run @ [ErrorAuthorization],
                 fetchCalls := Suc (fetchCalls run)\<rparr>))
   \<and> ((\<forall>t \<in> set ts. isTransientTick start tm t) \<longrightarrow>
        pollLoop pd cfg start tm run (ts @ rest)
        = pollLoop pd cfg start tm
            (run\<lparr>written := written run
                             @ map (\<lambda>t. WarnFetchFailed (fetchErrorMessage (snd t))) ts,
                 fetchCalls := fetchCalls run + length ts,
                 sleeps := sleeps run
                           @ replicate (length ts) (RequiredPollingConfig.pollDelayMs cfg)\<rparr>)
            rest
        \<and> pollLoop pd cfg start tm run ts
          = Inl (run\<lparr>written := written run
                                 @ map (\<lambda>t. WarnFetchFailed (fetchErrorMessage (snd t))) ts,
                     fetchCalls := fetchCalls run + length ts,
                     sleeps := sleeps run
                               @ replicate (length ts)
                                   (RequiredPollingConfig.pollDelayMs cfg)\<rparr>))"
proof (intro conjI impI)
  assume "now - start < tm * 60 * 1000 \<and> isPermanentAuthError msg"
  then show "pollLoop pd cfg start tm run ((now, FetchError msg) # rest)
      = Inr (\<lparr>status = Failed, durationMs = None,
              errorMessage =
                Some ''Missing 'pipeline:read' scope in trust policy. Add the 'Read' permission in the EnforceAuth console.'',
              phases = PollState.phases (pstate run),
              phaseTimings =
                Some (calculatePhaseDurations pd (PollState.phaseTimings (pstate run))
                        (PollState.phases (pstate run)) None),
              bundleVersion = None, deploymentUrl = None\<rparr>,
             run\<lparr>written := written run @ [ErrorAuthorization],
                 fetchCalls := Suc (fetchCalls run)\<rparr>)"
    by (simp add: pollStep_permanent authErrorMessage_def)
next
  assume a: "\<forall>t \<in> set ts. isTransientTick start tm t"
  show "pollLoop pd cfg start tm run (ts @ rest)
        = pollLoop pd cfg start tm
            (run\<lparr>written := written run
                             @ map (\<lambda>t. WarnFetchFailed (fetchErrorMessage (snd t))) ts,
                 fetchCalls := fetchCalls run + length ts,
                 sleeps := sleeps run
                           @ replicate (length ts) (RequiredPollingConfig.pollDelayMs cfg)\<rparr>)
            rest"
    by (rule pollLoop_transient_prefix[OF a])
  show "pollLoop pd cfg start tm run ts
          = Inl (run\<lparr>written := written run
                                 @ map (\<lambda>t. WarnFetchFailed (fetchErrorMessage (snd t))) ts,
                     fetchCalls := fetchCalls run + length ts,
                     sleeps := sleeps run
                               @ replicate (length ts)
                                   (RequiredPollingConfig.pollDelayMs cfg)\<rparr>)"
    using pollLoop_transient_prefix[OF a, of pd cfg run "[]"] by simp
qed

theorem fetch_error_handling_witness:
  "(5 :: int) - 0 < 1 * 60 * 1000
   \<and> \<not> isPermanentAuthError ''API request failed: HTTP 502: Bad Gateway''
   \<and> isPermanentAuthError ''API request failed: insufficient_scope''
   \<and> isTransientTick 0 1 (5, FetchError ''API request failed: HTTP 502: Bad Gateway'')
   \<and> isTransientTick 0 1 (2005, FetchError ''fetch failed'')
   \<and> pollLoop exampleParseDate DEFAULT_POLLING_CONFIG 0 1 exampleRun
        [(5, FetchError ''API request failed: HTTP 502: Bad Gateway''),
         (2005, FetchError ''fetch failed''),
         (4005, FetchError ''API request failed: insufficient_scope''),
         (6005, Logs [])]
      = Inr (\<lparr>status = Failed, durationMs = None,
              errorMessage =
                Some ''Missing 'pipeline:read' scope in trust policy. Add the 'Read' permission in the EnforceAuth console.'',
              phases = [], phaseTimings = Some Map.empty,
              bundleVersion = None, deploymentUrl = None\<rparr>,
             \<lparr>pstate = initialState,
              written = [WarnFetchFailed ''API request failed: HTTP 502: Bad Gateway'',
                         WarnFetchFailed ''fetch failed'', ErrorAuthorization],
              fetchCalls = 3, sleeps = [2000, 2000]\<rparr>)"
proof -
  let ?t1 = "(5 :: int, FetchError ''API request failed: HTTP 502: Bad Gateway'')"
  let ?t2 = "(2005 :: int, FetchError ''fetch failed'')"
  have h1: "(5 :: int) - 0 < 1 * 60 * 1000" by simp
  have h2: "\<not> isPermanentAuthError ''API request failed: HTTP 502: Bad Gateway''" by code_simp
  have h3: "isPermanentAuthError ''API request failed: insufficient_scope''" by code_simp
  have h4: "\<forall>t \<in> set [?t1, ?t2]. isTransientTick 0 1 t" by code_simp
  have h4a: "isTransientTick 0 1 ?t1" and h4b: "isTransientTick 0 1 ?t2"
    using h4 by simp_all
  have h5: "(4005 :: int) - 0 < 1 * 60 * 1000 \<and> isPermanentAuthError ''API request failed: insufficient_scope''"
    using h3 by simp
  let ?run2 = "exampleRun\<lparr>written := written exampleRun
                                 @ map (\<lambda>t. WarnFetchFailed (fetchErrorMessage (snd t))) [?t1, ?t2],
                               fetchCalls := fetchCalls exampleRun + length [?t1, ?t2],
                               sleeps := sleeps exampleRun
                                 @ replicate (length [?t1, ?t2])
                                     (RequiredPollingConfig.pollDelayMs DEFAULT_POLLING_CONFIG)\<rparr>"
  note a = fetch_error_handling[where ts = "[?t1, ?t2]" and start = 0 and tm = 1
      and pd = exampleParseDate and cfg = DEFAULT_POLLING_CONFIG and run = exampleRun
      and rest = "[(4005, FetchError ''API request failed: insufficient_scope''), (6005, Logs [])]",
      THEN conjunct2, THEN mp, OF h4, THEN conjunct1]
  note b = fetch_error_handling[where now = 4005 and start = 0 and tm = 1
      and msg = "''API request failed: insufficient_scope''"
      and pd = exampleParseDate and cfg = DEFAULT_POLLING_CONFIG and run = ?run2
      and rest = "[(6005, Logs [])]", THEN conjunct1, THEN mp, OF h5]
  have s1: "pollLoop exampleParseDate DEFAULT_POLLING_CONFIG 0 1 exampleRun
              [?t1, ?t2, (4005, FetchError ''API request failed: insufficient_scope''),
               (6005, Logs [])]
            = pollLoop exampleParseDate DEFAULT_POLLING_CONFIG 0 1 ?run2
                [(4005, FetchError ''API request failed: insufficient_scope''), (6005, Logs [])]"
    using a by (simp del: pollLoop.simps)
  have "pollLoop exampleParseDate DEFAULT_POLLING_CONFIG 0 1 exampleRun
        [?t1, ?t2, (4005, FetchError ''API request failed: insufficient_scope''), (6005, Logs [])]
      = Inr (\<lparr>status = Failed, durationMs = None,
              errorMessage =
                Some ''Missing 'pipeline:read' scope in trust policy. Add the 'Read' permission in the EnforceAuth console.'',
              phases = [], phaseTimings = Some Map.empty,
              bundleVersion = None, deploymentUrl = None\<rparr>,
             \<lparr>pstate = initialState,
              written = [WarnFetchFailed ''API request failed: HTTP 502: Bad Gateway'',
                         WarnFetchFailed ''fetch failed'', ErrorAuthorization],
              fetchCalls = 3, sleeps = [2000, 2000]\<rparr>)"
    unfolding s1 b
    by (simp add: fetchErrorMessage_def exampleRun_def initialState_def
        DEFAULT_POLLING_CONFIG_def calculatePhaseDurations_def)
  with h1 h2 h3 h4a h4b show ?thesis by blast
qed

section \<open>Phase durations (C4)\<close>

text \<open>
  C4. In \<^verbatim>\<open>calculatePhaseDurations\<close>, for a list of distinct phases, a phase that is not the
  last, has a timing without duration and a start that parses, and whose successor has a
  start that parses, gets as duration the gap from its own start to the successor's start;
  the last phase gets the gap from its start to the end boundary, when a non-empty boundary
  that parses is supplied. In particular, a session that has observed the phases
  \<^verbatim>\<open>plan\<close>, \<^verbatim>\<open>apply\<close>, \<^verbatim>\<open>verify\<close> at the instants \<open>u0\<close>, \<open>u1\<close>, \<open>u2\<close> and is finalized by a new
  \<^verbatim>\<open>pipeline_complete\<close> entry at the instant \<open>u3\<close> returns a result whose phase timings have
  the durations \<open>u1 - u0\<close>, \<open>u2 - u1\<close> and \<open>u3 - u2\<close>. (The order \<open>u0 < u1 < u2\<close> is not needed.)
\<close>

theorem phase_durations:
  "(distinct phs \<and> Suc i < length phs
      \<and> pt (phs ! i) = Some \<lparr>PhaseTiming.startedAt = s, PhaseTiming.durationMs = None\<rparr>
      \<and> pd s = Some t0
      \<and> pt (phs ! Suc i) = Some nt \<and> pd (startedAt nt) = Some t1 \<longrightarrow>
    calculatePhaseDurations pd pt phs boundary (phs ! i)
    = Some \<lparr>PhaseTiming.startedAt = s, PhaseTiming.durationMs = Some (t1 - t0)\<rparr>)
   \<and> (distinct phs \<and> Suc i = length phs
        \<and> pt (phs ! i) = Some \<lparr>PhaseTiming.startedAt = s, PhaseTiming.durationMs = None\<rparr>
        \<and> pd s = Some t0
        \<and> completedAt \<noteq> [] \<and> pd completedAt = Some tEnd \<longrightarrow>
      calculatePhaseDurations pd pt phs (Some completedAt) (phs ! i)
      = Some \<lparr>PhaseTiming.startedAt = s, PhaseTiming.durationMs = Some (tEnd - t0)\<rparr>)
   \<and> (PollState.phases st = [''plan'', ''apply'', ''verify'']
        \<and> PollState.phaseTimings st ''plan''
            = Some \<lparr>PhaseTiming.startedAt = s0, PhaseTiming.durationMs = None\<rparr>
        \<and> PollState.phaseTimings st ''apply''
            = Some \<lparr>PhaseTiming.startedAt = s1, PhaseTiming.durationMs = None\<rparr>
        \<and> PollState.phaseTimings st ''verify''
            = Some \<lparr>PhaseTiming.startedAt = s2, PhaseTiming.durationMs = None\<rparr>
        \<and> pd s0 = Some u0 \<and> pd s1 = Some u1 \<and> pd s2 = Some u2
        \<and> getLogId c \<notin> seenLogIds st \<and> isCompleteEntry c
        \<and> instantOf c \<noteq> [] \<and> pd (instantOf c) = Some u3 \<longrightarrow>
      (\<exists>st1 out r ft.
         processLog pd v st c = (st1, out, Some r)
         \<and> status r = Success
         \<and> PollingResult.phases r = [''plan'', ''apply'', ''verify'']
         \<and> PollingResult.phaseTimings r = Some ft
         \<and> durationOf ft ''plan'' = Some (u1 - u0)
         \<and> durationOf ft ''apply'' = Some (u2 - u1)
         \<and> durationOf ft ''verify'' = Some (u3 - u2)))"
proof (intro conjI impI)
  assume "distinct phs \<and> Suc i < length phs
      \<and> pt (phs ! i) = Some \<lparr>PhaseTiming.startedAt = s, PhaseTiming.durationMs = None\<rparr>
      \<and> pd s = Some t0
      \<and> pt (phs ! Suc i) = Some nt \<and> pd (startedAt nt) = Some t1"
  then show "calculatePhaseDurations pd pt phs boundary (phs ! i)
    = Some \<lparr>PhaseTiming.startedAt = s, PhaseTiming.durationMs = Some (t1 - t0)\<rparr>"
    using calcLoop_at_next[of phs i pt s pd t0 nt t1 boundary Map.empty]
    by (simp add: calculatePhaseDurations_def)
next
  assume "distinct phs \<and> Suc i = length phs
        \<and> pt (phs ! i) = Some \<lparr>PhaseTiming.startedAt = s, PhaseTiming.durationMs = None\<rparr>
        \<and> pd s = Some t0
        \<and> completedAt \<noteq> [] \<and> pd completedAt = Some tEnd"
  then show "calculatePhaseDurations pd pt phs (Some completedAt) (phs ! i)
      = Some \<lparr>PhaseTiming.startedAt = s, PhaseTiming.durationMs = Some (tEnd - t0)\<rparr>"
    using calcLoop_at_last[of phs i pt s pd t0 completedAt tEnd Map.empty]
    by (simp add: calculatePhaseDurations_def)
next
  assume a: "PollState.phases st = [''plan'', ''apply'', ''verify'']
        \<and> PollState.phaseTimings st ''plan''
            = Some \<lparr>PhaseTiming.startedAt = s0, PhaseTiming.durationMs = None\<rparr>
        \<and> PollState.phaseTimings st ''apply''
            = Some \<lparr>PhaseTiming.startedAt = s1, PhaseTiming.durationMs = None\<rparr>
        \<and> PollState.phaseTimings st ''verify''
            = Some \<lparr>PhaseTiming.startedAt = s2, PhaseTiming.durationMs = None\<rparr>
        \<and> pd s0 = Some u0 \<and> pd s1 = Some u1 \<and> pd s2 = Some u2
        \<and> getLogId c \<notin> seenLogIds st \<and> isCompleteEntry c
        \<and> instantOf c \<noteq> [] \<and> pd (instantOf c) = Some u3"
  let ?phs = "[''plan'', ''apply'', ''verify'']"
  let ?pt = "PollState.phaseTimings st"
  let ?ft = "calculatePhaseDurations pd ?pt ?phs (Some (instantOf c))"
  have d: "distinct ?phs" by simp
  have f0: "?ft ''plan''
            = Some \<lparr>PhaseTiming.startedAt = s0, PhaseTiming.durationMs = Some (u1 - u0)\<rparr>"
    using calcLoop_at_next[OF d, of 0 ?pt s0 pd u0 _ u1 "Some (instantOf c)" Map.empty] a
    by (simp add: calculatePhaseDurations_def)
  have f1: "?ft ''apply''
            = Some \<lparr>PhaseTiming.startedAt = s1, PhaseTiming.durationMs = Some (u2 - u1)\<rparr>"
    using calcLoop_at_next[OF d, of 1 ?pt s1 pd u1 _ u2 "Some (instantOf c)" Map.empty] a
    by (simp add: calculatePhaseDurations_def)
  have f2: "?ft ''verify''
            = Some \<lparr>PhaseTiming.startedAt = s2, PhaseTiming.durationMs = Some (u3 - u2)\<rparr>"
    using calcLoop_at_last[OF d, of 2 ?pt s2 pd u2 "instantOf c" u3 Map.empty] a
    by (simp add: calculatePhaseDurations_def)
  from a processLog_complete[of c st pd v]
  obtain out where "processLog pd v st c
           = (st\<lparr>seenLogIds := insert (getLogId c) (seenLogIds st)\<rparr>, out,
              Some (completionOf c ?phs ?ft))"
    by auto
  then show "\<exists>st1 out r ft.
         processLog pd v st c = (st1, out, Some r)
         \<and> status r = Success
         \<and> PollingResult.phases r = [''plan'', ''apply'', ''verify'']
         \<and> PollingResult.phaseTimings r = Some ft
         \<and> durationOf ft ''plan'' = Some (u1 - u0)
         \<and> durationOf ft ''apply'' = Some (u2 - u1)
         \<and> durationOf ft ''verify'' = Some (u3 - u2)"
    using f0 f1 f2 by (simp add: completionOf_def durationOf_def)
qed

theorem phase_durations_witness:
  "PollState.phases exampleThreePhaseState = [''plan'', ''apply'', ''verify'']
   \<and> PollState.phaseTimings exampleThreePhaseState ''plan''
       = Some \<lparr>PhaseTiming.startedAt = ''2024-01-01T00:00:00.000Z'',
                PhaseTiming.durationMs = None\<rparr>
   \<and> PollState.phaseTimings exampleThreePhaseState ''apply''
       = Some \<lparr>PhaseTiming.startedAt = ''2024-01-01T00:00:02.000Z'',
                PhaseTiming.durationMs = None\<rparr>
   \<and> PollState.phaseTimings exampleThreePhaseState ''verify''
       = Some \<lparr>PhaseTiming.startedAt = ''2024-01-01T00:00:05.000Z'',
                PhaseTiming.durationMs = None\<rparr>
   \<and> exampleParseDate ''2024-01-01T00:00:00.000Z'' = Some 1704067200000
   \<and> exampleParseDate ''2024-01-01T00:00:02.000Z'' = Some 1704067202000
   \<and> exampleParseDate ''2024-01-01T00:00:05.000Z'' = Some 1704067205000
   \<and> exampleParseDate (instantOf (exampleCompleteLog ''2024-01-01T00:00:09.000Z''))
       = Some 1704067209000
   \<and> getLogId (exampleCompleteLog ''2024-01-01T00:00:09.000Z'')
       \<notin> seenLogIds exampleThreePhaseState
   \<and> isCompleteEntry (exampleCompleteLog ''2024-01-01T00:00:09.000Z'')
   \<and> (case snd (snd (processLog exampleParseDate LvNormal exampleThreePhaseState
                        (exampleCompleteLog ''2024-01-01T00:00:09.000Z''))) of
         None \<Rightarrow> False
       | Some r \<Rightarrow>
           status r = Success
           \<and> PollingResult.phases r = [''plan'', ''apply'', ''verify'']
           \<and> (case PollingResult.phaseTimings r of
                 None \<Rightarrow> False
               | Some ft \<Rightarrow>
                   durationOf ft ''plan'' = Some 2000
                   \<and> durationOf ft ''apply'' = Some 3000
                   \<and> durationOf ft ''verify'' = Some 4000))
   \<and> calculatePhaseDurations exampleParseDate (PollState.phaseTimings exampleThreePhaseState)
         [''plan'', ''apply'', ''verify''] None ''plan''
       = Some \<lparr>PhaseTiming.startedAt = ''2024-01-01T00:00:00.000Z'',
                PhaseTiming.durationMs = Some 2000\<rparr>
   \<and> calculatePhaseDurations exampleParseDate (PollState.phaseTimings exampleThreePhaseState)
         [''plan'', ''apply'', ''verify''] (Some ''2024-01-01T00:00:09.000Z'') ''verify''
       = Some \<lparr>PhaseTiming.startedAt = ''2024-01-01T00:00:05.000Z'',
                PhaseTiming.durationMs = Some 4000\<rparr>"
proof -
  let ?st = exampleThreePhaseState
  let ?c = "exampleCompleteLog ''2024-01-01T00:00:09.000Z''"
  let ?phs = "[''plan'', ''apply'', ''verify'']"
  have h1: "PollState.phases ?st = ?phs" by code_simp
  have h2: "PollState.phaseTimings ?st ''plan''
            = Some \<lparr>PhaseTiming.startedAt = ''2024-01-01T00:00:00.000Z'',
                     PhaseTiming.durationMs = None\<rparr>" by code_simp
  have h3: "PollState.phaseTimings ?st ''apply''
            = Some \<lparr>PhaseTiming.startedAt = ''2024-01-01T00:00:02.000Z'',
                     PhaseTiming.durationMs = None\<rparr>" by code_simp
  have h4: "PollState.phaseTimings ?st ''verify''
            = Some \<lparr>PhaseTiming.startedAt = ''2024-01-01T00:00:05.000Z'',
                     PhaseTiming.durationMs = None\<rparr>" by code_simp
  have p0: "exampleParseDate ''2024-01-01T00:00:00.000Z'' = Some 1704067200000" by code_simp
  have p1: "exampleParseDate ''2024-01-01T00:00:02.000Z'' = Some 1704067202000" by code_simp
  have p2: "exampleParseDate ''2024-01-01T00:00:05.000Z'' = Some 1704067205000" by code_simp
  have p3: "exampleParseDate (instantOf ?c) = Some 1704067209000" by code_simp
  have p3': "exampleParseDate ''2024-01-01T00:00:09.000Z'' = Some 1704067209000" by code_simp
  have n3: "instantOf ?c \<noteq> []" by code_simp
  have new: "getLogId ?c \<notin> seenLogIds ?st" by code_simp
  have ic: "isCompleteEntry ?c" by code_simp
  note inst = phase_durations[where pd = exampleParseDate and st = ?st and c = ?c
      and ?s0.0 = "''2024-01-01T00:00:00.000Z''" and ?s1.0 = "''2024-01-01T00:00:02.000Z''"
      and ?s2.0 = "''2024-01-01T00:00:05.000Z''"
      and ?u0.0 = 1704067200000 and ?u1.0 = 1704067202000 and ?u2.0 = 1704067205000
      and ?u3.0 = 1704067209000 and v = LvNormal
      and pt = "PollState.phaseTimings ?st" and phs = ?phs]
  from inst[THEN conjunct2, THEN conjunct2] h1 h2 h3 h4 p0 p1 p2 p3 n3 new ic
  obtain st1 out r ft where
    "processLog exampleParseDate LvNormal ?st ?c = (st1, out, Some r)"
    and "status r = Success" and "PollingResult.phases r = ?phs"
    and "PollingResult.phaseTimings r = Some ft"
    and "durationOf ft ''plan'' = Some (1704067202000 - 1704067200000)"
    and "durationOf ft ''apply'' = Some (1704067205000 - 1704067202000)"
    and "durationOf ft ''verify'' = Some (1704067209000 - 1704067205000)"
    by blast
  then have r: "(case snd (snd (processLog exampleParseDate LvNormal ?st ?c)) of
         None \<Rightarrow> False
       | Some r \<Rightarrow>
           status r = Success
           \<and> PollingResult.phases r = ?phs
           \<and> (case PollingResult.phaseTimings r of
                 None \<Rightarrow> False
               | Some ft \<Rightarrow>
                   durationOf ft ''plan'' = Some 2000
                   \<and> durationOf ft ''apply'' = Some 3000
                   \<and> durationOf ft ''verify'' = Some 4000))"
    by simp
  have d: "distinct ?phs" by simp
  have a0: "calculatePhaseDurations exampleParseDate (PollState.phaseTimings ?st) ?phs None ''plan''
            = Some \<lparr>PhaseTiming.startedAt = ''2024-01-01T00:00:00.000Z'',
                     PhaseTiming.durationMs = Some 2000\<rparr>"
    using inst[where i = 0 and s = "''2024-01-01T00:00:00.000Z''" and ?t0.0 = 1704067200000
        and nt = "\<lparr>PhaseTiming.startedAt = ''2024-01-01T00:00:02.000Z'',
                   PhaseTiming.durationMs = None\<rparr>"
        and ?t1.0 = 1704067202000 and boundary = None, THEN conjunct1]
      d h2 h3 p0 p1
    by simp
  have a2: "calculatePhaseDurations exampleParseDate (PollState.phaseTimings ?st) ?phs
              (Some ''2024-01-01T00:00:09.000Z'') ''verify''
            = Some \<lparr>PhaseTiming.startedAt = ''2024-01-01T00:00:05.000Z'',
                     PhaseTiming.durationMs = Some 4000\<rparr>"
    using inst[where i = 2 and s = "''2024-01-01T00:00:05.000Z''" and ?t0.0 = 1704067205000
        and completedAt = "''2024-01-01T00:00:09.000Z''" and tEnd = 1704067209000,
        THEN conjunct2, THEN conjunct1]
      d h4 p2 p3'
    by simp
  from h1 h2 h3 h4 p0 p1 p2 p3 new ic r a0 a2 show ?thesis by blast
qed

section \<open>Timeout (C5)\<close>

text \<open>
  C5. When the session is still polling after the iterations \<open>pre\<close> (no result was returned)
  and the next iteration starts with the elapsed time at or beyond the timeout,
  \<^verbatim>\<open>pollForCompletion\<close> returns a result: its status is \<open>Timeout\<close>, its phases are exactly the
  phases accumulated so far, in order, no fetch is made in that iteration, and the timing of
  the last observed phase has its \<^verbatim>\<open>startedAt\<close> and no duration.
\<close>

theorem timeout_result:
  assumes "pollForCompletion pd startNow pre tm config = Inl run1"
    and "tm * 60 * 1000 \<le> now - startNow"
  shows "pollForCompletion pd startNow (pre @ (now, fetched) # rest) tm config
         = Inr (\<lparr>status = Timeout, durationMs = None, errorMessage = None,
                 phases = PollState.phases (pstate run1),
                 phaseTimings =
                   Some (calculatePhaseDurations pd (PollState.phaseTimings (pstate run1))
                           (PollState.phases (pstate run1)) None),
                 bundleVersion = None, deploymentUrl = None\<rparr>,
                run1\<lparr>written := written run1 @ [ErrorTimeout tm (PollState.phases (pstate run1))]\<rparr>)
       \<and> (PollState.phases (pstate run1) \<noteq> [] \<longrightarrow>
            (\<exists>ts. calculatePhaseDurations pd (PollState.phaseTimings (pstate run1))
                     (PollState.phases (pstate run1)) None (last (PollState.phases (pstate run1)))
                   = Some \<lparr>PhaseTiming.startedAt = ts, PhaseTiming.durationMs = None\<rparr>))"
proof -
  let ?cfg = "mergeConfig DEFAULT_POLLING_CONFIG config"
  let ?run0 = "\<lparr>pstate = initialState, written = [InfoPolling tm, InfoBlank],
                 fetchCalls = 0, sleeps = []\<rparr>"
  from assms(1) have pre: "pollLoop pd ?cfg startNow tm ?run0 pre = Inl run1"
    by (simp add: pollForCompletion_def)
  have "wellFormed (pstate (sessionOf (pollLoop pd ?cfg startNow tm ?run0 pre)))"
    by (rule pollLoop_wellFormed) (simp add: wellFormed_initialState)
  with pre have wf: "wellFormed (pstate run1)" by (simp add: sessionOf_def)
  have "pollForCompletion pd startNow (pre @ (now, fetched) # rest) tm config
        = pollLoop pd ?cfg startNow tm run1 ((now, fetched) # rest)"
    by (simp add: pollForCompletion_def pollLoop_append[of pd ?cfg startNow tm ?run0 pre] pre
        del: pollLoop.simps)
  then show ?thesis
    using last_phase_unset[OF wf] by (simp add: pollStep_timeout[OF assms(2)])
qed

theorem timeout_result_witness:
  "isl (pollForCompletion exampleParseDate 0 exampleIdleScript 1 exampleConfig)
   \<and> (1 :: int) * 60 * 1000 \<le> 60000 - 0
   \<and> (case pollForCompletion exampleParseDate 0
              (exampleIdleScript @ (60000, Logs []) # [(62000, Logs [])]) 1 exampleConfig of
         Inl run \<Rightarrow> False
       | Inr (r, run) \<Rightarrow>
           status r = Timeout \<and> PollingResult.phases r = [''build'']
           \<and> map_option (\<lambda>ft. ft ''build'') (PollingResult.phaseTimings r)
             = Some (Some \<lparr>PhaseTiming.startedAt = ''2024-01-01T00:00:00.000Z'',
                            PhaseTiming.durationMs = None\<rparr>)
           \<and> fetchCalls run = 30)"
proof -
  let ?P = "pollForCompletion exampleParseDate 0 exampleIdleScript 1 exampleConfig"
  have h1: "isl ?P" by code_simp
  then have h1': "?P = Inl (sessionOf ?P)"
    by (cases ?P) (simp_all add: sessionOf_def)
  have h2: "(1 :: int) * 60 * 1000 \<le> 60000 - 0" by simp
  have c1: "PollState.phases (pstate (sessionOf ?P)) = [''build'']" by code_simp
  have c2: "PollState.phaseTimings (pstate (sessionOf ?P)) ''build''
            = Some \<lparr>PhaseTiming.startedAt = ''2024-01-01T00:00:00.000Z'',
                     PhaseTiming.durationMs = None\<rparr>" by code_simp
  have c3: "fetchCalls (sessionOf ?P) = 30" by code_simp
  have c4: "calculatePhaseDurations exampleParseDate (PollState.phaseTimings (pstate (sessionOf ?P)))
              [''build''] None ''build''
            = Some \<lparr>PhaseTiming.startedAt = ''2024-01-01T00:00:00.000Z'',
                     PhaseTiming.durationMs = None\<rparr>"
    using c2 by (simp add: calculatePhaseDurations_def calcIteration_def Let_def split: option.splits)
  from timeout_result[OF h1' h2, where fetched = "Logs []" and rest = "[(62000, Logs [])]",
      THEN conjunct1]
  have "(case pollForCompletion exampleParseDate 0
              (exampleIdleScript @ (60000, Logs []) # [(62000, Logs [])]) 1 exampleConfig of
         Inl run \<Rightarrow> False
       | Inr (r, run) \<Rightarrow>
           status r = Timeout \<and> PollingResult.phases r = [''build'']
           \<and> map_option (\<lambda>ft. ft ''build'') (PollingResult.phaseTimings r)
             = Some (Some \<lparr>PhaseTiming.startedAt = ''2024-01-01T00:00:00.000Z'',
                            PhaseTiming.durationMs = None\<rparr>)
           \<and> fetchCalls run = 30)"
    by (simp add: c1 c3 c4)
  with h1 h2 show ?thesis by blast
qed

section \<open>Successful completion (C6)\<close>

text \<open>
  C6. A new \<^verbatim>\<open>pipeline_complete\<close> entry (not of error level) processed in any state returns
  a result with status \<open>Success\<close> whose phases are the phases observed so far, in order, and
  which carries \<^verbatim>\<open>duration_ms\<close>, \<^verbatim>\<open>details.bundle_version\<close> and \<^verbatim>\<open>details.deployment_url\<close> of the
  entry. In particular, when the first batch of a session consists of \<open>N\<close> phase-transition
  entries (not of error level, with distinct identities) for \<open>N\<close> distinct non-empty phase
  names, followed by a \<^verbatim>\<open>pipeline_complete\<close> entry, \<^verbatim>\<open>pollForCompletion\<close> returns at that fetch a
  result with status \<open>Success\<close> and exactly these \<open>N\<close> phases in order of arrival.
\<close>

theorem pipeline_complete_success:
  "(getLogId c \<notin> seenLogIds st \<and> isCompleteEntry c \<longrightarrow>
      (\<exists>out. processLog pd v st c
         = (st\<lparr>seenLogIds := insert (getLogId c) (seenLogIds st)\<rparr>, out,
            Some (completionOf c (PollState.phases st)
                    (calculatePhaseDurations pd (PollState.phaseTimings st)
                       (PollState.phases st) (Some (instantOf c)))))))
   \<and> (map phaseOf es = map Some names
        \<and> (\<forall>e \<in> set es. toLowerCase (level e) \<noteq> ''error'')
        \<and> distinct (map getLogId es) \<and> distinct names \<and> [] \<notin> set names
        \<and> isCompleteEntry c \<and> now - startNow < tm * 60 * 1000 \<longrightarrow>
      (\<exists>run1.
         pollForCompletion pd startNow ((now, Logs (es @ c # post)) # rest) tm config
         = Inr (completionOf c names
                  (calculatePhaseDurations pd (Map.empty(names [\<mapsto>] map startTiming es))
                     names (Some (instantOf c))),
                run1)
         \<and> PollState.phases (pstate run1) = names
         \<and> fetchCalls run1 = 1 \<and> sleeps run1 = [])
      \<and> length names = length es)
   \<and> status (completionOf c names ft) = Success
   \<and> PollingResult.phases (completionOf c names ft) = names
   \<and> PollingResult.phaseTimings (completionOf c names ft) = Some ft
   \<and> PollingResult.durationMs (completionOf c names ft)
       = (case metadata c of None \<Rightarrow> None | Some m \<Rightarrow> duration_ms m)
   \<and> bundleVersion (completionOf c names ft)
       = (case metadata c of
            None \<Rightarrow> None
          | Some m \<Rightarrow> (case details m of None \<Rightarrow> None | Some d \<Rightarrow> bundle_version d))
   \<and> deploymentUrl (completionOf c names ft)
       = (case metadata c of
            None \<Rightarrow> None
          | Some m \<Rightarrow> (case details m of None \<Rightarrow> None | Some d \<Rightarrow> deployment_url d))"
proof (intro conjI impI)
  assume "getLogId c \<notin> seenLogIds st \<and> isCompleteEntry c"
  then show "\<exists>out. processLog pd v st c
         = (st\<lparr>seenLogIds := insert (getLogId c) (seenLogIds st)\<rparr>, out,
            Some (completionOf c (PollState.phases st)
                    (calculatePhaseDurations pd (PollState.phaseTimings st)
                       (PollState.phases st) (Some (instantOf c)))))"
    using processLog_complete[of c st pd v] by blast
next
  assume a: "map phaseOf es = map Some names
        \<and> (\<forall>e \<in> set es. toLowerCase (level e) \<noteq> ''error'')
        \<and> distinct (map getLogId es) \<and> distinct names \<and> [] \<notin> set names
        \<and> isCompleteEntry c \<and> now - startNow < tm * 60 * 1000"
  then show "length names = length es"
    by (metis length_map)
  let ?cfg = "mergeConfig DEFAULT_POLLING_CONFIG config"
  let ?v = "RequiredPollingConfig.logVerbosity ?cfg"
  let ?run0 = "\<lparr>pstate = initialState, written = [InfoPolling tm, InfoBlank],
                 fetchCalls = 0, sleeps = []\<rparr>"
  let ?st1 = "initialState\<lparr>seenLogIds := seenLogIds initialState \<union> getLogId ` set es,
                 seenPhases := seenPhases initialState \<union> set names,
                 PollState.phases := PollState.phases initialState @ names,
                 PollState.phaseTimings :=
                   (PollState.phaseTimings initialState)(names [\<mapsto>] map startTiming es)\<rparr>"
  from a obtain out1 where p1: "processLogs pd ?v initialState es = (?st1, out1, None)"
    using processLogs_phase_entries[of es names initialState pd ?v]
    by (auto simp: initialState_def)
  have cact: "metadataAction c = Some ''pipeline_complete''"
    using a by (simp add: isCompleteEntry_def)
  have "getLogId c \<notin> getLogId ` set es"
  proof
    assume "getLogId c \<in> getLogId ` set es"
    then obtain e where e: "e \<in> set es" and id: "getLogId c = getLogId e" by auto
    from e a have "phaseOf e \<in> set (map Some names)"
      by (metis image_eqI list.set_map)
    then obtain name where "phaseOf e = Some name" by auto
    from phase_id_not_complete_id[OF this cact] id show False by simp
  qed
  then have new: "getLogId c \<notin> seenLogIds ?st1"
    by (simp add: initialState_def)
  from a have ic: "isCompleteEntry c" by simp
  from processLog_complete[OF new ic, of pd ?v]
  obtain out2 where p2: "processLog pd ?v ?st1 c
      = (?st1\<lparr>seenLogIds := insert (getLogId c) (seenLogIds ?st1)\<rparr>, out2,
         Some (completionOf c (PollState.phases ?st1)
                 (calculatePhaseDurations pd (PollState.phaseTimings ?st1)
                    (PollState.phases ?st1) (Some (instantOf c)))))"
    by blast
  have p1': "processLogs pd ?v (pstate ?run0) es = (?st1, out1, None)"
    using p1 by simp
  from a have nt: "now - startNow < tm * 60 * 1000" by simp
  from pollStep_logs_return[OF processLogs_first_return[OF p1' p2] nt]
  show "\<exists>run1.
         pollForCompletion pd startNow ((now, Logs (es @ c # post)) # rest) tm config
         = Inr (completionOf c names
                  (calculatePhaseDurations pd (Map.empty(names [\<mapsto>] map startTiming es))
                     names (Some (instantOf c))),
                run1)
         \<and> PollState.phases (pstate run1) = names
         \<and> fetchCalls run1 = 1 \<and> sleeps run1 = []"
    by (simp add: pollForCompletion_def initialState_def)
qed (simp_all add: completionOf_def)

theorem pipeline_complete_success_witness:
  "map phaseOf [examplePhaseLog ''2024-01-01T00:00:00.000Z'' ''sync''] = map Some [''sync'']
   \<and> toLowerCase (level (examplePhaseLog ''2024-01-01T00:00:00.000Z'' ''sync'')) \<noteq> ''error''
   \<and> isCompleteEntry (exampleCompleteLog ''2024-01-01T00:00:02.000Z'')
   \<and> (5 :: int) - 0 < 1 * 60 * 1000
   \<and> (case pollForCompletion exampleParseDate 0
              [(5, Logs [examplePhaseLog ''2024-01-01T00:00:00.000Z'' ''sync'',
                         exampleCompleteLog ''2024-01-01T00:00:02.000Z''])]
              1 exampleConfig of
         Inl run \<Rightarrow> False
       | Inr (r, run) \<Rightarrow>
           status r = Success \<and> PollingResult.durationMs r = Some 4200
           \<and> PollingResult.phases r = [''sync''] \<and> bundleVersion r = Some ''v7''
           \<and> deploymentUrl r = None \<and> errorMessage r = None
           \<and> fetchCalls run = 1)"
proof -
  let ?ph = "examplePhaseLog ''2024-01-01T00:00:00.000Z'' ''sync''"
  let ?c = "exampleCompleteLog ''2024-01-01T00:00:02.000Z''"
  have h1: "map phaseOf [?ph] = map Some [''sync'']" by code_simp
  have h2: "toLowerCase (level ?ph) \<noteq> ''error''" by code_simp
  have h3: "isCompleteEntry ?c" by code_simp
  have h4: "(5 :: int) - 0 < 1 * 60 * 1000" by simp
  have m: "(case metadata ?c of None \<Rightarrow> None | Some m \<Rightarrow> duration_ms m) = Some 4200"
    "(case metadata ?c of None \<Rightarrow> None
      | Some m \<Rightarrow> (case details m of None \<Rightarrow> None | Some d \<Rightarrow> bundle_version d)) = Some ''v7''"
    "(case metadata ?c of None \<Rightarrow> None
      | Some m \<Rightarrow> (case details m of None \<Rightarrow> None | Some d \<Rightarrow> deployment_url d)) = None"
    by (simp_all add: exampleCompleteLog_def)
  note inst = pipeline_complete_success[where es = "[?ph]" and names = "[''sync'']" and c = ?c
      and now = 5 and startNow = 0 and tm = 1 and pd = exampleParseDate
      and config = exampleConfig and post = "[]" and rest = "[]"]
  from inst[THEN conjunct2, THEN conjunct1] h1 h2 h3 h4
  obtain run1 where
    "pollForCompletion exampleParseDate 0 [(5, Logs [?ph, ?c])] 1 exampleConfig
     = Inr (completionOf ?c [''sync'']
              (calculatePhaseDurations exampleParseDate
                 (Map.empty([''sync''] [\<mapsto>] map startTiming [?ph])) [''sync'']
                 (Some (instantOf ?c))), run1)"
    and "fetchCalls run1 = 1"
    by auto
  then have "(case pollForCompletion exampleParseDate 0 [(5, Logs [?ph, ?c])] 1 exampleConfig of
         Inl run \<Rightarrow> False
       | Inr (r, run) \<Rightarrow>
           status r = Success \<and> PollingResult.durationMs r = Some 4200
           \<and> PollingResult.phases r = [''sync''] \<and> bundleVersion r = Some ''v7''
           \<and> deploymentUrl r = None \<and> errorMessage r = None
           \<and> fetchCalls run = 1)"
    using m by (simp add: completionOf_def)
  with h1 h2 h3 h4 show ?thesis by blast
qed

section \<open>Phases are accepted once (C7)\<close>

text \<open>
  C7. A phase-transition entry for a phase name that was already observed leaves the phase
  list, \<^verbatim>\<open>seenPhases\<close> and every recorded timing unchanged. A new entry that is not of error
  level and reports a new, non-empty phase name appends the name to the list and records its
  \<^verbatim>\<open>startedAt\<close> (the entry's instant), with no duration. Along any script, a phase once
  observed stays observed and its timing is never overwritten, the phase list only grows at
  its end, and the invariant of the tracker (no repetition in the list, \<^verbatim>\<open>seenPhases\<close> equal
  to its elements, a timing for each phase) is preserved.
\<close>

theorem phase_accepted_once:
  "(phaseOf log = Some p \<and> p \<in> seenPhases st \<longrightarrow>
      PollState.phases (fst (processLog pd v st log)) = PollState.phases st
      \<and> seenPhases (fst (processLog pd v st log)) = seenPhases st
      \<and> PollState.phaseTimings (fst (processLog pd v st log)) = PollState.phaseTimings st)
   \<and> (getLogId log \<notin> seenLogIds st \<and> toLowerCase (level log) \<noteq> ''error''
        \<and> phaseOf log = Some p \<and> p \<noteq> [] \<and> p \<notin> seenPhases st \<longrightarrow>
      PollState.phases (fst (processLog pd v st log)) = PollState.phases st @ [p]
      \<and> seenPhases (fst (processLog pd v st log)) = insert p (seenPhases st)
      \<and> PollState.phaseTimings (fst (processLog pd v st log))
        = (PollState.phaseTimings st)
            (p \<mapsto> \<lparr>PhaseTiming.startedAt = instantOf log, PhaseTiming.durationMs = None\<rparr>))
   \<and> (\<forall>q. q \<in> seenPhases (pstate run) \<longrightarrow>
          q \<in> seenPhases (pstate (sessionOf (pollLoop pd cfg start tm run script)))
          \<and> PollState.phaseTimings (pstate (sessionOf (pollLoop pd cfg start tm run script))) q
            = PollState.phaseTimings (pstate run) q)
   \<and> (\<exists>ext. PollState.phases (pstate (sessionOf (pollLoop pd cfg start tm run script)))
             = PollState.phases (pstate run) @ ext)
   \<and> (wellFormed (pstate run) \<longrightarrow>
        wellFormed (pstate (sessionOf (pollLoop pd cfg start tm run script))))"
proof (intro conjI impI allI)
  assume "phaseOf log = Some p \<and> p \<in> seenPhases st"
  then show "PollState.phases (fst (processLog pd v st log)) = PollState.phases st"
    and "seenPhases (fst (processLog pd v st log)) = seenPhases st"
    and "PollState.phaseTimings (fst (processLog pd v st log)) = PollState.phaseTimings st"
    by (simp_all add: processLog_state)
next
  assume a: "getLogId log \<notin> seenLogIds st \<and> toLowerCase (level log) \<noteq> ''error''
        \<and> phaseOf log = Some p \<and> p \<noteq> [] \<and> p \<notin> seenPhases st"
  then show "PollState.phases (fst (processLog pd v st log)) = PollState.phases st @ [p]"
    and "seenPhases (fst (processLog pd v st log)) = insert p (seenPhases st)"
    and "PollState.phaseTimings (fst (processLog pd v st log))
        = (PollState.phaseTimings st)
            (p \<mapsto> \<lparr>PhaseTiming.startedAt = instantOf log, PhaseTiming.durationMs = None\<rparr>)"
    by (simp_all add: processLog_state acceptPhase_def)
next
  fix q assume "q \<in> seenPhases (pstate run)"
  from pollLoop_keeps_phase[OF this, of pd cfg start tm script]
  show "q \<in> seenPhases (pstate (sessionOf (pollLoop pd cfg start tm run script)))"
    and "PollState.phaseTimings (pstate (sessionOf (pollLoop pd cfg start tm run script))) q
            = PollState.phaseTimings (pstate run) q"
    by simp_all
next
  show "\<exists>ext. PollState.phases (pstate (sessionOf (pollLoop pd cfg start tm run script)))
             = PollState.phases (pstate run) @ ext"
    by (rule pollLoop_phases_extend)
next
  assume "wellFormed (pstate run)"
  then show "wellFormed (pstate (sessionOf (pollLoop pd cfg start tm run script)))"
    by (rule pollLoop_wellFormed)
qed

theorem phase_accepted_once_witness:
  "phaseOf (examplePhaseLog ''2024-01-01T00:00:02.000Z'' ''build'') = Some ''build''
   \<and> ''build'' \<in> seenPhases (fst (processLog exampleParseDate LvNormal initialState
                                  (examplePhaseLog ''2024-01-01T00:00:00.000Z'' ''build'')))
   \<and> getLogId (examplePhaseLog ''2024-01-01T00:00:02.000Z'' ''build'')
       \<notin> seenLogIds (fst (processLog exampleParseDate LvNormal initialState
                              (examplePhaseLog ''2024-01-01T00:00:00.000Z'' ''build'')))
   \<and> PollState.phases
        (fst (processLog exampleParseDate LvNormal
                (fst (processLog exampleParseDate LvNormal initialState
                        (examplePhaseLog ''2024-01-01T00:00:00.000Z'' ''build'')))
                (examplePhaseLog ''2024-01-01T00:00:02.000Z'' ''build'')))
      = [''build'']
   \<and> PollState.phaseTimings
        (fst (processLog exampleParseDate LvNormal
                (fst (processLog exampleParseDate LvNormal initialState
                        (examplePhaseLog ''2024-01-01T00:00:00.000Z'' ''build'')))
                (examplePhaseLog ''2024-01-01T00:00:02.000Z'' ''build''))) ''build''
      = Some \<lparr>PhaseTiming.startedAt = ''2024-01-01T00:00:00.000Z'',
               PhaseTiming.durationMs = None\<rparr>"
proof -
  let ?e1 = "examplePhaseLog ''2024-01-01T00:00:00.000Z'' ''build''"
  let ?e2 = "examplePhaseLog ''2024-01-01T00:00:02.000Z'' ''build''"
  let ?st1 = "fst (processLog exampleParseDate LvNormal initialState ?e1)"
  let ?st2 = "fst (processLog exampleParseDate LvNormal ?st1 ?e2)"
  have a1: "phaseOf ?e2 = Some ''build''" by code_simp
  have a2: "''build'' \<in> seenPhases ?st1" by code_simp
  have a3: "getLogId ?e2 \<notin> seenLogIds ?st1" by code_simp
  have b1: "PollState.phases ?st1 = [''build'']" by code_simp
  have b2: "PollState.phaseTimings ?st1 ''build''
            = Some \<lparr>PhaseTiming.startedAt = ''2024-01-01T00:00:00.000Z'',
                     PhaseTiming.durationMs = None\<rparr>"
    by code_simp
  have "PollState.phases ?st2 = PollState.phases ?st1
        \<and> seenPhases ?st2 = seenPhases ?st1
        \<and> PollState.phaseTimings ?st2 = PollState.phaseTimings ?st1"
    using phase_accepted_once[where log = ?e2 and p = "''build''" and st = ?st1
        and pd = exampleParseDate and v = LvNormal, THEN conjunct1] a1 a2
    by blast
  with b1 b2 have "PollState.phases ?st2 = [''build'']"
    and "PollState.phaseTimings ?st2 ''build''
         = Some \<lparr>PhaseTiming.startedAt = ''2024-01-01T00:00:00.000Z'',
                  PhaseTiming.durationMs = None\<rparr>"
    by simp_all
  with a1 a2 a3 show ?thesis by blast
qed

section \<open>The first terminal entry ends the session (C8)\<close>

text \<open>
  C8. Within one fetched batch the entries are processed in arrival order. When the entries
  \<open>pre\<close> before \<open>t\<close> have been processed without a return, and \<open>t\<close> is new (its identity is not in
  the seen-set) and terminal (error level, \<^verbatim>\<open>pipeline_complete\<close>, \<^verbatim>\<open>pipeline_failed\<close> or
  \<^verbatim>\<open>pipeline_error\<close>), then processing \<open>t\<close> returns a result, and the session ends there: whatever
  entries \<open>post\<close> follow \<open>t\<close> in the batch and whatever the environment \<open>rest\<close> would do
  afterwards, the state is the one reached at \<open>t\<close> (only \<open>t\<close> is marked seen on top of the
  state before it, no later entry is marked or changes the phases or writes a line), the
  fetch count is the one of this fetch, and no sleep is added.
\<close>

theorem first_terminal_ends_session:
  assumes "processLogs pd (RequiredPollingConfig.logVerbosity cfg) (pstate run) pre
           = (st1, out1, None)"
    and "getLogId t \<notin> seenLogIds st1"
    and "isTerminalEntry t"
    and "now - start < tm * 60 * 1000"
  shows "\<exists>st2 out2 r.
           processLog pd (RequiredPollingConfig.logVerbosity cfg) st1 t = (st2, out2, Some r)
           \<and> seenLogIds st2 = insert (getLogId t) (seenLogIds st1)
           \<and> (\<forall>post rest.
                 processLogs pd (RequiredPollingConfig.logVerbosity cfg) (pstate run)
                   (pre @ t # post) = (st2, out1 @ out2, Some r)
                 \<and> pollLoop pd cfg start tm run ((now, Logs (pre @ t # post)) # rest)
                   = Inr (r, run\<lparr>pstate := st2, written := written run @ out1 @ out2,
                                  fetchCalls := Suc (fetchCalls run)\<rparr>))"
proof -
  let ?v = "RequiredPollingConfig.logVerbosity cfg"
  obtain st2 out2 res where p: "processLog pd ?v st1 t = (st2, out2, res)"
    by (cases "processLog pd ?v st1 t") auto
  have "res \<noteq> None"
    using processLog_returns_iff[of pd ?v st1 t] p assms(2,3) by simp
  then obtain r where r: "res = Some r" by auto
  have seen: "seenLogIds st2 = insert (getLogId t) (seenLogIds st1)"
    using processLog_seenLogIds[of pd ?v st1 t] p by simp
  have batch: "processLogs pd ?v (pstate run) (pre @ t # post) = (st2, out1 @ out2, Some r)"
    for post
    using processLogs_first_return[OF assms(1)] p r by simp
  have loop: "pollLoop pd cfg start tm run ((now, Logs (pre @ t # post)) # rest)
              = Inr (r, run\<lparr>pstate := st2, written := written run @ out1 @ out2,
                             fetchCalls := Suc (fetchCalls run)\<rparr>)" for post rest
    using pollStep_logs_return[OF batch assms(4)] by simp
  from p r seen batch loop show ?thesis by blast
qed

theorem first_terminal_ends_session_witness:
  "snd (snd (processLogs exampleParseDate LvNormal initialState
               [examplePhaseLog ''2024-01-01T00:00:00.000Z'' ''build''])) = None
   \<and> getLogId (exampleCompleteLog ''2024-01-01T00:00:02.000Z'')
       \<notin> seenLogIds (fst (processLogs exampleParseDate LvNormal initialState
                              [examplePhaseLog ''2024-01-01T00:00:00.000Z'' ''build'']))
   \<and> isTerminalEntry (exampleCompleteLog ''2024-01-01T00:00:02.000Z'')
   \<and> (5 :: int) - 0 < 1 * 60 * 1000
   \<and> pollLoop exampleParseDate DEFAULT_POLLING_CONFIG 0 1 exampleRun
         [(5, Logs [examplePhaseLog ''2024-01-01T00:00:00.000Z'' ''build'',
                    exampleCompleteLog ''2024-01-01T00:00:02.000Z'',
                    examplePhaseLog ''2024-01-01T00:00:05.000Z'' ''deploy'']),
          (2005, Logs [examplePhaseLog ''2024-01-01T00:00:05.000Z'' ''deploy''])]
       = pollLoop exampleParseDate DEFAULT_POLLING_CONFIG 0 1 exampleRun
           [(5, Logs [examplePhaseLog ''2024-01-01T00:00:00.000Z'' ''build'',
                      exampleCompleteLog ''2024-01-01T00:00:02.000Z''])]
   \<and> (case pollLoop exampleParseDate DEFAULT_POLLING_CONFIG 0 1 exampleRun
               [(5, Logs [examplePhaseLog ''2024-01-01T00:00:00.000Z'' ''build'',
                          exampleCompleteLog ''2024-01-01T00:00:02.000Z'',
                          examplePhaseLog ''2024-01-01T00:00:05.000Z'' ''deploy'']),
                (2005, Logs [examplePhaseLog ''2024-01-01T00:00:05.000Z'' ''deploy''])] of
         Inl run1 \<Rightarrow> False
       | Inr (r, run1) \<Rightarrow>
           status r = Success \<and> PollingResult.phases r = [''build'']
           \<and> PollState.phases (pstate run1) = [''build'']
           \<and> card (seenLogIds (pstate run1)) = 2
           \<and> fetchCalls run1 = 1 \<and> sleeps run1 = [])"
proof -
  let ?ph = "examplePhaseLog ''2024-01-01T00:00:00.000Z'' ''build''"
  let ?c = "exampleCompleteLog ''2024-01-01T00:00:02.000Z''"
  let ?ph2 = "examplePhaseLog ''2024-01-01T00:00:05.000Z'' ''deploy''"
  let ?X = "processLogs exampleParseDate LvNormal initialState [?ph]"
  have v: "RequiredPollingConfig.logVerbosity DEFAULT_POLLING_CONFIG = LvNormal"
    by (simp add: DEFAULT_POLLING_CONFIG_def)
  have s: "pstate exampleRun = initialState"
    by (simp add: exampleRun_def)
  have h1: "snd (snd ?X) = None" by code_simp
  then have h1': "processLogs exampleParseDate
                    (RequiredPollingConfig.logVerbosity DEFAULT_POLLING_CONFIG)
                    (pstate exampleRun) [?ph] = (fst ?X, fst (snd ?X), None)"
    by (simp add: v s prod_eq_iff)
  have h2: "getLogId ?c \<notin> seenLogIds (fst ?X)" by code_simp
  have h3: "isTerminalEntry ?c" by code_simp
  have h4: "(5 :: int) - 0 < 1 * 60 * 1000" by simp
  from first_terminal_ends_session[OF h1' h2 h3 h4]
  obtain st2 out2 r where
    loop: "\<And>post rest.
             pollLoop exampleParseDate DEFAULT_POLLING_CONFIG 0 1 exampleRun
               ((5, Logs ([?ph] @ ?c # post)) # rest)
             = Inr (r, exampleRun\<lparr>pstate := st2,
                                   written := written exampleRun @ fst (snd ?X) @ out2,
                                   fetchCalls := Suc (fetchCalls exampleRun)\<rparr>)"
    by blast
  have eq: "pollLoop exampleParseDate DEFAULT_POLLING_CONFIG 0 1 exampleRun
              [(5, Logs [?ph, ?c, ?ph2]), (2005, Logs [?ph2])]
            = pollLoop exampleParseDate DEFAULT_POLLING_CONFIG 0 1 exampleRun
                [(5, Logs [?ph, ?c])]"
    using loop[of "[?ph2]" "[(2005, Logs [?ph2])]"] loop[of "[]" "[]"] by simp
  have ev: "(case pollLoop exampleParseDate DEFAULT_POLLING_CONFIG 0 1 exampleRun
               [(5, Logs [?ph, ?c, ?ph2]), (2005, Logs [?ph2])] of
              Inl run1 \<Rightarrow> False
            | Inr (r, run1) \<Rightarrow>
                status r = Success \<and> PollingResult.phases r = [''build'']
                \<and> PollState.phases (pstate run1) = [''build'']
                \<and> card (seenLogIds (pstate run1)) = 2
                \<and> fetchCalls run1 = 1 \<and> sleeps run1 = [])"
    by code_simp
  from h1 h2 h3 h4 eq ev show ?thesis by blast
qed

section \<open>Verbosity does not affect decisions (C9)\<close>

text \<open>
  C9. Two runs of \<^verbatim>\<open>pollForCompletion\<close> on the same environment, with configurations that
  differ only in \<^verbatim>\<open>logVerbosity\<close> (any of the four values, or unset), agree on everything but
  the lines written: both return the same result (status, phases, timings, message and
  payload), or both are still polling; the poller's state, the number of fetches and the
  delays slept are the same.
\<close>

theorem verbosity_independent:
  "decisionOf (pollForCompletion pd startNow script tm
                 (config\<lparr>PollingConfig.logVerbosity := v1\<rparr>))
   = decisionOf (pollForCompletion pd startNow script tm
                   (config\<lparr>PollingConfig.logVerbosity := v2\<rparr>))
   \<and> map_sum (\<lambda>run. ()) fst
         (pollForCompletion pd startNow script tm (config\<lparr>PollingConfig.logVerbosity := v1\<rparr>))
       = map_sum (\<lambda>run. ()) fst
           (pollForCompletion pd startNow script tm (config\<lparr>PollingConfig.logVerbosity := v2\<rparr>))
   \<and> pstate (sessionOf
         (pollForCompletion pd startNow script tm (config\<lparr>PollingConfig.logVerbosity := v1\<rparr>)))
       = pstate (sessionOf
           (pollForCompletion pd startNow script tm (config\<lparr>PollingConfig.logVerbosity := v2\<rparr>)))
   \<and> fetchCalls (sessionOf
         (pollForCompletion pd startNow script tm (config\<lparr>PollingConfig.logVerbosity := v1\<rparr>)))
       = fetchCalls (sessionOf
           (pollForCompletion pd startNow script tm (config\<lparr>PollingConfig.logVerbosity := v2\<rparr>)))
   \<and> sleeps (sessionOf
         (pollForCompletion pd startNow script tm (config\<lparr>PollingConfig.logVerbosity := v1\<rparr>)))
       = sleeps (sessionOf
           (pollForCompletion pd startNow script tm (config\<lparr>PollingConfig.logVerbosity := v2\<rparr>)))"
proof -
  have "decisionOf (pollForCompletion pd startNow script tm
                      (config\<lparr>PollingConfig.logVerbosity := v1\<rparr>))
        = decisionOf (pollForCompletion pd startNow script tm
                        (config\<lparr>PollingConfig.logVerbosity := v2\<rparr>))"
    unfolding pollForCompletion_def
      mergeConfig_verbosity[where config = config and ?v2.0 = v2 and ?v1.0 = v1]
    by (rule pollLoop_verbosity) simp
  with decisionOf_eq[OF this] show ?thesis by simp
qed

section \<open>The public predicates (C10)\<close>

text \<open>
  C10. For every polling result \<open>r\<close>, \<open>isSuccessful r\<close> holds exactly when the status is
  \<open>Success\<close>, \<open>isFailed r\<close> holds exactly when the status is \<open>Failed\<close> or \<open>Timeout\<close>, and exactly
  one of the two predicates holds. A result with status \<open>Timeout\<close> is a failure, and the
  caller in main.ts then marks the action failed (it calls \<^verbatim>\<open>core.setFailed\<close>), with the
  fallback text when the result carries no error message.
\<close>

theorem isSuccessful_isFailed_partition:
  "isSuccessful r = (status r = Success)
   \<and> isFailed r = (status r = Failed \<or> status r = Timeout)
   \<and> isSuccessful r \<noteq> isFailed r
   \<and> isFailed (r\<lparr>status := Timeout\<rparr>)
   \<and> \<not> isSuccessful (r\<lparr>status := Timeout\<rparr>)
   \<and> setFailedAfterPolling (r\<lparr>status := Timeout\<rparr>)
       = Some (''Deployment failed: ''
               @ orElse (errorMessage r) ''Deployment failed without error message'')
   \<and> setFailedAfterPolling (r\<lparr>status := Success\<rparr>) = None"
  by (cases "status r") (simp_all add: isSuccessful_def isFailed_def setFailedAfterPolling_def)

end
